theory Spec2Isabelle
  imports Main "HOL-Library.Word"
begin

section \<open>ArbCore: the execution engine and its storage mediator\<close>

text \<open>
  A shallow embedding of \<^verbatim>\<open>ArbCore\<close> (arbcore.cpp). The embedding is sequential: one
  call runs at a time, so mutexes and atomics are plain fields, and a snapshot
  transaction reads the store as it is when the call starts. The source fixes no
  \<^verbatim>\<open>NDEBUG\<close>, so the build is a parameter: where assertions are compiled in, a failed
  \<^verbatim>\<open>assert\<close> aborts the process; where they are compiled out, the statements that follow
  an \<^verbatim>\<open>assert(false)\<close> are the ones that run. Logging to \<^verbatim>\<open>std::cerr\<close> and sleeping are
  not modelled. A C++ exception, and the abort of a failed assertion, is the left
  summand of a sum type.
\<close>

subsection \<open>Scalars, statuses and results\<close>

type_synonym uint256_t = "256 word"
type_synonym bytes = "8 word list"

text \<open>The codes of \<^verbatim>\<open>rocksdb::Status\<close> that the core produces or tests for, and two
  codes of a failing store.\<close>

datatype status = OK | NotFound | Corruption | IOError | Busy | TryAgain

definition ok :: "status \<Rightarrow> bool" where
  "ok s = (s = OK)"

definition IsNotFound :: "status \<Rightarrow> bool" where
  "IsNotFound s = (s = NotFound)"

text \<open>\<^verbatim>\<open>std::runtime_error\<close> with its message, the use of a null machine pointer, and
  the abort of the process by a failed \<^verbatim>\<open>assert\<close>.\<close>

datatype error = RuntimeError string | NullDereference | AssertionFailure

text \<open>\<^verbatim>\<open>intx::narrow_cast<size_t>\<close>: the low 64 bits.\<close>

definition narrow_cast_size_t :: "uint256_t \<Rightarrow> nat" where
  "narrow_cast_size_t c = unat c mod 2 ^ 64"

subsection \<open>The mailbox slot\<close>

datatype message_status_enum =
    MESSAGES_EMPTY
  | MESSAGES_READY
  | MESSAGES_SUCCESS
  | MESSAGES_NEED_OLDER
  | MESSAGES_ERROR

text \<open>\<^verbatim>\<open>ArbCore::messagesStatus\<close> on the atomic slot \<^verbatim>\<open>message_data_status\<close>: the
  returned status and the slot afterwards.\<close>

definition messagesStatus :: "message_status_enum \<Rightarrow> message_status_enum \<times> message_status_enum" where
  "messagesStatus message_data_status =
     (let current_status = message_data_status
      in if current_status \<noteq> MESSAGES_ERROR \<and> current_status \<noteq> MESSAGES_READY
         then (current_status, MESSAGES_EMPTY)
         else (current_status, message_data_status))"

subsection \<open>The key-value store\<close>

text \<open>
  A column with 32-byte big-endian keys is the list of its entries in iterator order,
  which is ascending key order. \<open>Seek\<close> positions an iterator at the first entry whose
  key is not below the bound; the iterator is then the list of the entries from there
  on, and it is valid while that list is not empty.
\<close>

type_synonym 'a column = "(uint256_t \<times> 'a) list"

definition col_keys :: "'a column \<Rightarrow> uint256_t list" where
  "col_keys col = map fst col"

definition ordered_col :: "'a column \<Rightarrow> bool" where
  "ordered_col col = sorted_wrt (<) (col_keys col)"

definition Seek :: "'a column \<Rightarrow> uint256_t \<Rightarrow> 'a column" where
  "Seek col k = dropWhile (\<lambda>e. fst e < k) col"

text \<open>\<open>SeekForPrev\<close> followed by \<open>Prev\<close> steps visits the entries at or below the
  bound, from the highest key down.\<close>

definition SeekForPrev :: "'a column \<Rightarrow> uint256_t \<Rightarrow> 'a column" where
  "SeekForPrev col k = rev (takeWhile (\<lambda>e. fst e \<le> k) col)"

fun col_put :: "uint256_t \<Rightarrow> 'a \<Rightarrow> 'a column \<Rightarrow> 'a column" where
  "col_put k v [] = [(k, v)]"
| "col_put k v ((k', v') # rest) =
     (if k < k' then (k, v) # (k', v') # rest
      else if k = k' then (k, v) # rest
      else (k', v') # col_put k v rest)"

definition col_delete :: "uint256_t \<Rightarrow> 'a column \<Rightarrow> 'a column" where
  "col_delete k col = filter (\<lambda>e. fst e \<noteq> k) col"

subsection \<open>Machine state and checkpoints\<close>

record InboxState =
  inbox_count :: uint256_t
  inbox_accumulator :: uint256_t

record MachineOutput =
  fully_processed_inbox :: InboxState
  arb_gas_used :: uint256_t
  log_count :: uint256_t
  send_count :: uint256_t
  last_sideload :: "uint256_t option"

text \<open>
  \<^verbatim>\<open>MachineState\<close> and \<^verbatim>\<open>MachineStateKeys\<close> have the same shape: the state holds the
  register, static, data stack and aux stack values, its keys hold their hashes. Code
  segments, the program counters, the remaining gas and the machine status are not
  modelled.
\<close>

record 'a machine_fields =
  static_f :: 'a
  register_f :: 'a
  datastack_f :: 'a
  auxstack_f :: 'a
  staged_message :: "bytes option"
  output_f :: MachineOutput

type_synonym MachineStateKeys = "uint256_t machine_fields"
type_synonym 'val MachineState = "'val machine_fields"

text \<open>Modelled from the spec: \<^verbatim>\<open>MachineStateKeys::getTotalMessagesRead\<close> is not under
  src/; a staged message has been read but is not yet counted in
  \<open>fully_processed_inbox\<close>.\<close>

definition getTotalMessagesRead :: "MachineStateKeys \<Rightarrow> uint256_t" where
  "getTotalMessagesRead k =
     (case staged_message k of
        None \<Rightarrow> inbox_count (fully_processed_inbox (output_f k))
      | Some _ \<Rightarrow> inbox_count (fully_processed_inbox (output_f k)) + 1)"

subsection \<open>The message log\<close>

record SequencerBatchItem =
  last_sequence_number :: uint256_t
  total_delayed_count :: uint256_t
  accumulator :: uint256_t
  sequencer_message :: "bytes option"

text \<open>The stored form of a batch item: the key is its \<open>last_sequence_number\<close>, the
  payload the other three fields.\<close>

type_synonym SequencerBatchItem_payload = "uint256_t \<times> uint256_t \<times> bytes option"

definition deserializeSequencerBatchItem ::
    "uint256_t \<Rightarrow> SequencerBatchItem_payload \<Rightarrow> SequencerBatchItem" where
  "deserializeSequencerBatchItem k p =
     \<lparr>last_sequence_number = k, total_delayed_count = fst p,
      accumulator = fst (snd p), sequencer_message = snd (snd p)\<rparr>"

datatype RawMessageAndAccumulator =
  RawMessageAndAccumulator (raw_message: bytes) (raw_accumulator: uint256_t)

text \<open>An \<^verbatim>\<open>InboxMessage\<close> is kept as the bytes it is extracted from; a default-constructed
  \<^verbatim>\<open>MachineMessage\<close> holds no bytes and accumulator 0.\<close>

datatype InboxMessage = DefaultInboxMessage | ExtractedInboxMessage bytes

datatype MachineMessage =
  MachineMessage (machine_message: InboxMessage) (machine_accumulator: uint256_t)

definition extractInboxMessage :: "bytes \<Rightarrow> InboxMessage" where
  "extractInboxMessage b = ExtractedInboxMessage b"

definition default_MachineMessage :: MachineMessage where
  "default_MachineMessage = MachineMessage DefaultInboxMessage 0"

subsection \<open>The data storage\<close>

text \<open>
  The store is the content of its columns. \<open>io_status\<close> is the status that every
  iterator, read, write and commit of a transaction reports: \<open>OK\<close> for a healthy store;
  a store that fails (an I/O error, a corruption) fails every operation with that
  status. The value store is a parameter \<open>'vs\<close>, accessed through the operations of
  \<open>collaborators\<close> below. A transaction is a working copy of the store: a commit
  makes it the store, and a transaction dropped without commit leaves the store as it
  was.
\<close>

record 'vs DataStorage =
  io_status :: status
  state_col :: "bytes \<Rightarrow> uint256_t option"
  checkpoint_col :: "MachineStateKeys column"
  log_col :: "uint256_t column"
  send_col :: "bytes column"
  sequencer_batch_item_col :: "SequencerBatchItem_payload column"
  delayed_message_col :: "bytes column"
  sideload_col :: "uint256_t column"
  value_store :: 'vs

text \<open>
  The collaborators that are outside the core: the value store (\<^verbatim>\<open>getValue\<close>,
  \<^verbatim>\<open>deleteValue\<close>, \<^verbatim>\<open>saveMachineState\<close>), the values (\<^verbatim>\<open>hash_value\<close>, whether a value
  is a \<^verbatim>\<open>Tuple\<close>) and the VM (\<^verbatim>\<open>nextGasCost\<close>; \<^verbatim>\<open>run\<close> with the gas target, the
  go-over flag and the inbox messages, which returns the new state and the gas count
  of the assertion; \<^verbatim>\<open>continueRunningMachine\<close> of the machine thread).
\<close>

record ('vs, 'val) collaborators =
  getValue :: "'vs \<Rightarrow> uint256_t \<Rightarrow> status + 'val"
  deleteValue :: "uint256_t \<Rightarrow> 'vs \<Rightarrow> 'vs"
  saveMachineState :: "'val MachineState \<Rightarrow> 'vs \<Rightarrow> status \<times> 'vs"
  hash_value :: "'val \<Rightarrow> uint256_t"
  is_Tuple :: "'val \<Rightarrow> bool"
  nextGasCost :: "'val MachineState \<Rightarrow> uint256_t"
  run_machine :: "uint256_t \<Rightarrow> bool \<Rightarrow> MachineMessage list \<Rightarrow> 'val MachineState
                  \<Rightarrow> 'val MachineState \<times> uint256_t"
  continueRunningMachine :: "'val MachineState \<Rightarrow> bool"

text \<open>The iterator of a column inside a transaction: no entry is visible on a failing
  store.\<close>

definition Valid_entries :: "'vs DataStorage \<Rightarrow> 'a column \<Rightarrow> 'a column" where
  "Valid_entries tx col = (if ok (io_status tx) then col else [])"

definition commit :: "'vs DataStorage \<Rightarrow> status" where
  "commit tx = io_status tx"

text \<open>The state column holds the counters under short byte keys.\<close>

definition log_inserted_key :: bytes where "log_inserted_key = [196]"
definition log_processed_key :: bytes where "log_processed_key = [195]"
definition send_inserted_key :: bytes where "send_inserted_key = [194]"
definition send_processed_key :: bytes where "send_processed_key = [193]"
definition message_entry_inserted_key :: bytes where "message_entry_inserted_key = [192]"
definition logscursor_current_prefix :: bytes where "logscursor_current_prefix = [190]"

definition stateGetUint256 :: "'vs DataStorage \<Rightarrow> bytes \<Rightarrow> status \<times> uint256_t" where
  "stateGetUint256 tx k =
     (if \<not> ok (io_status tx) then (io_status tx, 0)
      else case state_col tx k of None \<Rightarrow> (NotFound, 0) | Some v \<Rightarrow> (OK, v))"

definition statePut :: "'vs DataStorage \<Rightarrow> bytes \<Rightarrow> uint256_t \<Rightarrow> status \<times> 'vs DataStorage" where
  "statePut tx k v =
     (if \<not> ok (io_status tx) then (io_status tx, tx)
      else (OK, tx\<lparr>state_col := (state_col tx)(k \<mapsto> v)\<rparr>))"

text \<open>Modelled from the spec: the ranged reads \<^verbatim>\<open>logGetUint256Vector\<close> and
  \<^verbatim>\<open>sendGetVectorVector\<close> of the transaction are not under src/. Entries are keyed by
  dense index: the read seeks the first key and returns the next \<open>n\<close> payloads in key
  order, and not-found when the column ends before that.\<close>

definition getVectorUsingKey ::
    "'vs DataStorage \<Rightarrow> 'a column \<Rightarrow> uint256_t \<Rightarrow> nat \<Rightarrow> status \<times> 'a list" where
  "getVectorUsingKey tx col first_key n =
     (if \<not> ok (io_status tx) then (io_status tx, [])
      else if length (Seek col first_key) < n then (NotFound, [])
      else (OK, map snd (take n (Seek col first_key))))"

definition logGetUint256Vector ::
    "'vs DataStorage \<Rightarrow> uint256_t \<Rightarrow> nat \<Rightarrow> status \<times> uint256_t list" where
  "logGetUint256Vector tx first_key n = getVectorUsingKey tx (log_col tx) first_key n"

definition sendGetVectorVector ::
    "'vs DataStorage \<Rightarrow> uint256_t \<Rightarrow> nat \<Rightarrow> status \<times> bytes list" where
  "sendGetVectorVector tx first_key n = getVectorUsingKey tx (send_col tx) first_key n"

subsection \<open>Counters\<close>

definition logInsertedCountImpl :: "'vs DataStorage \<Rightarrow> status \<times> uint256_t" where
  "logInsertedCountImpl tx = stateGetUint256 tx log_inserted_key"

definition updateLogInsertedCount ::
    "'vs DataStorage \<Rightarrow> uint256_t \<Rightarrow> status \<times> 'vs DataStorage" where
  "updateLogInsertedCount tx log_index = statePut tx log_inserted_key log_index"

definition sendInsertedCountImpl :: "'vs DataStorage \<Rightarrow> status \<times> uint256_t" where
  "sendInsertedCountImpl tx = stateGetUint256 tx send_inserted_key"

definition updateSendInsertedCount ::
    "'vs DataStorage \<Rightarrow> uint256_t \<Rightarrow> status \<times> 'vs DataStorage" where
  "updateSendInsertedCount tx send_index = statePut tx send_inserted_key send_index"

definition messageEntryInsertedCountImpl :: "'vs DataStorage \<Rightarrow> status \<times> uint256_t" where
  "messageEntryInsertedCountImpl tx = stateGetUint256 tx message_entry_inserted_key"

subsection \<open>Logs and sends\<close>

text \<open>The loop of \<^verbatim>\<open>getLogsNoLock\<close> over the hashes read: the first value that cannot be
  loaded ends the call with its status and no logs.\<close>

fun load_logs ::
    "('vs, 'val) collaborators \<Rightarrow> 'vs \<Rightarrow> uint256_t list \<Rightarrow> 'val list \<Rightarrow> status \<times> 'val list" where
  "load_logs E vs [] logs = (OK, logs)"
| "load_logs E vs (h # hs) logs =
     (case getValue E vs h of
        Inl s \<Rightarrow> (s, [])
      | Inr v \<Rightarrow> load_logs E vs hs (logs @ [v]))"

definition getLogsNoLock ::
    "('vs, 'val) collaborators \<Rightarrow> 'vs DataStorage \<Rightarrow> uint256_t \<Rightarrow> uint256_t
     \<Rightarrow> status \<times> 'val list" where
  "getLogsNoLock E tx index count =
     (if count = 0 then (OK, [])
      else
        let log_count_res = logInsertedCountImpl tx in
        if \<not> ok (fst log_count_res) then (fst log_count_res, [])
        else
          let max_log_count = snd log_count_res in
          if index \<ge> max_log_count then (OK, [])
          else
            let count' = (if index + count > max_log_count then max_log_count - index
                          else count);
                hash_result = logGetUint256Vector tx index (narrow_cast_size_t count') in
            if \<not> ok (fst hash_result) then (fst hash_result, [])
            else load_logs E (value_store tx) (snd hash_result) [])"

definition getSends ::
    "'vs DataStorage \<Rightarrow> uint256_t \<Rightarrow> uint256_t \<Rightarrow> status \<times> bytes list" where
  "getSends tx index count =
     (if count = 0 then (OK, [])
      else
        let send_count_res = sendInsertedCountImpl tx in
        if \<not> ok (fst send_count_res) then (fst send_count_res, [])
        else
          let max_send_count = snd send_count_res in
          if index \<ge> max_send_count then (NotFound, [])
          else
            let count' = (if index + count > max_send_count then max_send_count - index
                          else count)
            in sendGetVectorVector tx index (narrow_cast_size_t count'))"

subsection \<open>The core object\<close>

datatype DataCursor_status = EMPTY | REQUESTED | READY | ERROR

record 'val DataCursor =
  cursor_status :: DataCursor_status
  current_total_key :: bytes
  pending_total_count :: uint256_t
  data :: "'val list"
  deleted_data :: "'val list"
  number_requested :: uint256_t
  error_string :: string

text \<open>The fields of \<^verbatim>\<open>ArbCore\<close> that the operations below read or write. The live
  machine is \<open>None\<close> for a null pointer. \<^verbatim>\<open>std::map\<close> is the list of its entries in
  key order, like a column.\<close>

record ('vs, 'val) ArbCore =
  data_storage :: "'vs DataStorage"
  machine :: "'val MachineState option"
  sideload_cache :: "'val MachineState column"
  logs_cursors :: "'val DataCursor list"
  last_machine_output :: MachineOutput

subsection \<open>The sideload cache\<close>

definition sideload_cache_size :: uint256_t where
  "sideload_cache_size = 20"

text \<open>The eviction loop of \<^verbatim>\<open>operator()\<close> over the whole cache, after the machine of
  \<open>block\<close> has been stored.\<close>

fun evict_sideloads :: "uint256_t \<Rightarrow> 'm column \<Rightarrow> 'm column" where
  "evict_sideloads block [] = []"
| "evict_sideloads block (e # rest) =
     (if (block > sideload_cache_size \<and> fst e < block - sideload_cache_size) \<or> fst e > block
      then evict_sideloads block rest
      else e # evict_sideloads block rest)"

text \<open>\<^verbatim>\<open>sideload_cache[block] = std::make_unique<Machine>(*machine)\<close> and the eviction
  that follows it.\<close>

definition cache_sideload :: "uint256_t \<Rightarrow> 'm \<Rightarrow> 'm column \<Rightarrow> 'm column" where
  "cache_sideload block m cache = evict_sideloads block (col_put block m cache)"

text \<open>The cache part of \<^verbatim>\<open>deleteSideloadsStartingAt\<close>: erase from \<open>lower_bound\<close> to the
  end.\<close>

definition erase_from_lower_bound :: "uint256_t \<Rightarrow> 'm column \<Rightarrow> 'm column" where
  "erase_from_lower_bound block_number cache = takeWhile (\<lambda>e. fst e < block_number) cache"

definition sideloadDelete :: "'vs DataStorage \<Rightarrow> uint256_t \<Rightarrow> 'vs DataStorage" where
  "sideloadDelete tx k =
     (if \<not> ok (io_status tx) then tx
      else tx\<lparr>sideload_col := col_delete k (sideload_col tx)\<rparr>)"

definition deleteSideloadsStartingAt ::
    "('vs, 'val) ArbCore \<Rightarrow> 'vs DataStorage \<Rightarrow> uint256_t
     \<Rightarrow> status \<times> ('vs, 'val) ArbCore \<times> 'vs DataStorage" where
  "deleteSideloadsStartingAt core tx block_number =
     (let core' = core\<lparr>sideload_cache :=
                         erase_from_lower_bound block_number (sideload_cache core)\<rparr>;
          visited = Valid_entries tx (Seek (sideload_col tx) block_number);
          tx' = fold (\<lambda>e t. sideloadDelete t (fst e)) visited tx;
          s = io_status tx
      in (if IsNotFound s then OK else s, core', tx'))"

text \<open>The caches that the core can hold: it starts empty and changes only in the two
  places above.\<close>

inductive sideload_cache_reachable :: "'m column \<Rightarrow> bool" where
  initial: "sideload_cache_reachable []"
| saved: "sideload_cache_reachable c \<Longrightarrow> sideload_cache_reachable (cache_sideload block m c)"
| reorged: "sideload_cache_reachable c \<Longrightarrow>
            sideload_cache_reachable (erase_from_lower_bound block_number c)"

subsection \<open>The build and the keys read through stale pointers\<close>

text \<open>
  Two functions build the key of a seek in a vector \<^verbatim>\<open>tmp\<close> that is constructed with
  elements: \<^verbatim>\<open>tmp(32 * 2)\<close> in \<^verbatim>\<open>getMessagesImpl\<close> and \<^verbatim>\<open>tmp(32)\<close> in
  \<^verbatim>\<open>getNextSequencerBatchItem\<close>. The pointer of the slice is taken first
  (\<^verbatim>\<open>tmp.data() + tmp.size()\<close>, one past the last of the 64 elements, in the former;
  \<^verbatim>\<open>tmp.data()\<close>, the first of the 32 elements, in the latter), and
  \<^verbatim>\<open>marshal_uint256_t\<close> then appends the bytes of the number at the end of the vector.
  The vector is full, so the append moves it to a new allocation and frees the old
  one, and the slice \<^verbatim>\<open>{ptr, 32}\<close> keeps the old address. The key of the seek is
  therefore not the number that was marshalled: it is whatever 32 bytes are found
  behind the freed buffer (\<^verbatim>\<open>getMessagesImpl\<close>) or in it, where the zero elements were
  (\<^verbatim>\<open>getNextSequencerBatchItem\<close>). The program does not determine these bytes, so they
  are parameters: for each of the two slices, the key that is read when the number
  marshalled is \<open>x\<close>. The key of the delayed-message iterator of \<^verbatim>\<open>getMessagesImpl\<close> is
  taken in the same way from \<^verbatim>\<open>tmp\<close> after it has grown; whether that second append
  moves the vector again depends on the capacity the first one gave it, so this key is
  a parameter as well.

  \<open>NDEBUG\<close> tells whether assertions are compiled out.
\<close>

record runtime =
  NDEBUG :: bool
  seq_batch_lower_bound_bytes :: "uint256_t \<Rightarrow> uint256_t"
  delayed_msg_lower_bound_bytes :: "uint256_t \<Rightarrow> uint256_t"
  next_item_lower_bound_bytes :: "uint256_t \<Rightarrow> uint256_t"

text \<open>\<^verbatim>\<open>assert(condition)\<close> aborts the process when assertions are compiled in and the
  condition is false.\<close>

definition assert_aborts :: "runtime \<Rightarrow> bool \<Rightarrow> bool" where
  "assert_aborts R condition = (\<not> NDEBUG R \<and> \<not> condition)"

subsection \<open>Reading the message log\<close>

definition default_SequencerBatchItem :: SequencerBatchItem where
  "default_SequencerBatchItem =
     \<lparr>last_sequence_number = 0, total_delayed_count = 0, accumulator = 0,
      sequencer_message = None\<rparr>"

text \<open>\<^verbatim>\<open>getNextSequencerBatchItem\<close>: the iterator seeks at the key that the slice reads,
  not at \<open>sequence_number\<close>.\<close>

definition getNextSequencerBatchItem ::
    "runtime \<Rightarrow> 'vs DataStorage \<Rightarrow> uint256_t \<Rightarrow> status \<times> SequencerBatchItem" where
  "getNextSequencerBatchItem R tx sequence_number =
     (let seq_batch_lower_bound = next_item_lower_bound_bytes R sequence_number
      in case Valid_entries tx (Seek (sequencer_batch_item_col tx) seq_batch_lower_bound) of
           [] \<Rightarrow> (if ok (io_status tx) then (NotFound, default_SequencerBatchItem)
                  else (io_status tx, default_SequencerBatchItem))
         | e # _ \<Rightarrow> (OK, deserializeSequencerBatchItem (fst e) (snd e)))"

definition isValid :: "runtime \<Rightarrow> 'vs DataStorage \<Rightarrow> InboxState \<Rightarrow> bool" where
  "isValid R tx fully_processed_inbox' =
     (if inbox_count fully_processed_inbox' = 0 then True
      else
        let result = getNextSequencerBatchItem R tx (inbox_count fully_processed_inbox' - 1)
        in ok (fst result) \<and> accumulator (snd result) = inbox_accumulator fully_processed_inbox')"

text \<open>
  \<^verbatim>\<open>getMessagesImpl\<close>. The consistency check on the first batch item read has these
  outcomes: the accumulators differ (return not-found), \<open>count\<close> is 0 (\<open>break\<close>), the
  item ends before \<open>index\<close> (\<open>continue\<close> with its delayed count), the read starts
  inside this item (go on with the delayed count moved back to \<open>index\<close>), or one of the
  two assertions of the last two cases fails.
\<close>

datatype check_step = Mismatch | Break | Continue uint256_t | Proceed uint256_t | Aborts

definition consistency_check ::
    "runtime \<Rightarrow> uint256_t \<Rightarrow> uint256_t \<Rightarrow> uint256_t option \<Rightarrow> SequencerBatchItem
     \<Rightarrow> check_step" where
  "consistency_check R index count start_acc item =
     (if (case start_acc of None \<Rightarrow> False | Some a \<Rightarrow> accumulator item \<noteq> a) then Mismatch
      else if count = 0 then Break
      else if last_sequence_number item \<ge> index
      then if assert_aborts R (sequencer_message item = None) then Aborts
           else Proceed (total_delayed_count item - (last_sequence_number item + 1 - index))
      else if assert_aborts R (last_sequence_number item + 1 = index) then Aborts
           else Continue (total_delayed_count item))"

text \<open>The inner loop over the delayed messages of one batch item: the iterator, the
  delayed count and the messages after it, or the exception it throws. The size of the
  vector is compared with \<open>count\<close> as a number.\<close>

fun read_delayed ::
    "bytes column \<Rightarrow> uint256_t \<Rightarrow> uint256_t \<Rightarrow> uint256_t \<Rightarrow> uint256_t
     \<Rightarrow> RawMessageAndAccumulator list
     \<Rightarrow> error + (bytes column \<times> uint256_t \<times> RawMessageAndAccumulator list)" where
  "read_delayed [] prev_delayed_count total_delayed count item_acc messages =
     Inr ([], prev_delayed_count, messages)"
| "read_delayed (d # ds) prev_delayed_count total_delayed count item_acc messages =
     (if prev_delayed_count < total_delayed \<and> length messages < unat count
      then
        if fst d \<noteq> prev_delayed_count
        then Inl (RuntimeError ''Got wrong delayed message from database'')
        else read_delayed ds (prev_delayed_count + 1) total_delayed count item_acc
               (messages @ [RawMessageAndAccumulator (snd d) item_acc])
      else Inr (d # ds, prev_delayed_count, messages))"

text \<open>What one batch item adds: an exception or abort, an early return with a status,
  or the new delayed count, delayed iterator (\<open>None\<close> until it is first opened) and
  messages. The delayed iterator is opened at the key that its slice reads; an item
  that adds nothing is asserted not to occur.\<close>

datatype item_step =
    Thrown error
  | Returned status
  | Emitted uint256_t "bytes column option" "RawMessageAndAccumulator list"

definition emit_item ::
    "runtime \<Rightarrow> 'vs DataStorage \<Rightarrow> uint256_t \<Rightarrow> SequencerBatchItem \<Rightarrow> uint256_t
     \<Rightarrow> bytes column option \<Rightarrow> RawMessageAndAccumulator list \<Rightarrow> item_step" where
  "emit_item R tx count item prev_delayed_count delayed_msg_it messages =
     (case sequencer_message item of
        Some m \<Rightarrow>
          if prev_delayed_count \<noteq> total_delayed_count item
          then Thrown (RuntimeError
            ''Sequencer batch item included both sequencer message and delayed messages'')
          else Emitted prev_delayed_count delayed_msg_it
                 (messages @ [RawMessageAndAccumulator m (accumulator item)])
      | None \<Rightarrow>
          if total_delayed_count item > prev_delayed_count
          then
            let it = (case delayed_msg_it of
                        None \<Rightarrow> Valid_entries tx
                                  (Seek (delayed_message_col tx)
                                     (delayed_msg_lower_bound_bytes R prev_delayed_count))
                      | Some it' \<Rightarrow> it')
            in case read_delayed it prev_delayed_count (total_delayed_count item) count
                      (accumulator item) messages of
                 Inl err \<Rightarrow> Thrown err
               | Inr (it', prev', messages') \<Rightarrow>
                   if \<not> ok (io_status tx) then Returned (io_status tx)
                   else if length messages' < unat count \<and> prev' \<noteq> total_delayed_count item
                   then Thrown (RuntimeError
                     ''Sequencer batch item referenced nonexistent delayed messages'')
                   else Emitted prev' (Some it') messages'
          else if assert_aborts R False then Thrown AssertionFailure
          else Emitted prev_delayed_count delayed_msg_it messages)"

text \<open>The statements after the loop over the batch items.\<close>

definition after_loop ::
    "'vs DataStorage \<Rightarrow> bool \<Rightarrow> RawMessageAndAccumulator list
     \<Rightarrow> error + (status \<times> RawMessageAndAccumulator list)" where
  "after_loop tx needs_consistency_check messages =
     (if \<not> ok (io_status tx) then Inr (io_status tx, [])
      else if needs_consistency_check then Inr (NotFound, [])
      else Inr (OK, messages))"

text \<open>The loop over the batch items that the iterator visits. An item that leaves the
  read unfinished is asserted to end where the messages read so far end.\<close>

fun getMessagesImpl_loop ::
    "runtime \<Rightarrow> 'vs DataStorage \<Rightarrow> uint256_t \<Rightarrow> uint256_t \<Rightarrow> uint256_t option
     \<Rightarrow> SequencerBatchItem_payload column \<Rightarrow> bool \<Rightarrow> uint256_t \<Rightarrow> bytes column option
     \<Rightarrow> RawMessageAndAccumulator list
     \<Rightarrow> error + (status \<times> RawMessageAndAccumulator list)" where
  "getMessagesImpl_loop R tx index count start_acc [] needs_consistency_check
       prev_delayed_count delayed_msg_it messages =
     after_loop tx needs_consistency_check messages"
| "getMessagesImpl_loop R tx index count start_acc (e # rest) needs_consistency_check
       prev_delayed_count delayed_msg_it messages =
     (case (if needs_consistency_check
            then consistency_check R index count start_acc
                   (deserializeSequencerBatchItem (fst e) (snd e))
            else Proceed prev_delayed_count) of
        Mismatch \<Rightarrow> Inr (NotFound, [])
      | Aborts \<Rightarrow> Inl AssertionFailure
      | Break \<Rightarrow> after_loop tx False messages
      | Continue prev' \<Rightarrow>
          getMessagesImpl_loop R tx index count start_acc rest False prev' delayed_msg_it
            messages
      | Proceed prev' \<Rightarrow>
          (case emit_item R tx count (deserializeSequencerBatchItem (fst e) (snd e)) prev'
                  delayed_msg_it messages of
             Thrown err \<Rightarrow> Inl err
           | Returned s \<Rightarrow> Inr (s, [])
           | Emitted prev'' it' messages' \<Rightarrow>
               if length messages' \<ge> unat count then after_loop tx False messages'
               else if assert_aborts R
                         (last_sequence_number (deserializeSequencerBatchItem (fst e) (snd e)) + 1
                          = index + of_nat (length messages'))
               then Inl AssertionFailure
               else getMessagesImpl_loop R tx index count start_acc rest False prev'' it'
                      messages'))"

text \<open>\<^verbatim>\<open>getMessagesImpl\<close>: \<open>start\<close> is marshalled, and the iterator seeks at the key that
  the slice reads.\<close>

definition getMessagesImpl ::
    "runtime \<Rightarrow> 'vs DataStorage \<Rightarrow> uint256_t \<Rightarrow> uint256_t \<Rightarrow> uint256_t option
     \<Rightarrow> error + (status \<times> RawMessageAndAccumulator list)" where
  "getMessagesImpl R tx index count start_acc =
     (let start = (if index > 0 then index - 1 else index);
          needs_consistency_check = (index > 0);
          seq_batch_lower_bound = seq_batch_lower_bound_bytes R start
      in getMessagesImpl_loop R tx index count start_acc
           (Valid_entries tx (Seek (sequencer_batch_item_col tx) seq_batch_lower_bound))
           needs_consistency_check 0 None [])"

text \<open>\<^verbatim>\<open>getMessages\<close>: the vector is constructed with \<open>result.data.size()\<close> elements, and
  each message is then pushed at its end.\<close>

definition getMessages ::
    "runtime \<Rightarrow> 'vs DataStorage \<Rightarrow> uint256_t \<Rightarrow> uint256_t
     \<Rightarrow> error + (status \<times> bytes list)" where
  "getMessages R tx index count =
     (case getMessagesImpl R tx index count None of
        Inl err \<Rightarrow> Inl err
      | Inr result \<Rightarrow>
          if \<not> ok (fst result) then Inr (fst result, [])
          else
            let bytes_vec = replicate (length (snd result)) []
            in Inr (fst result,
                    foldl (\<lambda>v message_and_acc. v @ [raw_message message_and_acc])
                      bytes_vec (snd result)))"

text \<open>\<^verbatim>\<open>readNextMessages\<close>: the vector is constructed with \<open>count\<close> elements, and each
  message is then emplaced at its end.\<close>

definition readNextMessages ::
    "runtime \<Rightarrow> 'vs DataStorage \<Rightarrow> InboxState \<Rightarrow> nat
     \<Rightarrow> error + (status \<times> MachineMessage list)" where
  "readNextMessages R tx fully_processed_inbox' count =
     (let messages = replicate count default_MachineMessage
      in case getMessagesImpl R tx (inbox_count fully_processed_inbox') (of_nat count)
                (Some (inbox_accumulator fully_processed_inbox')) of
           Inl err \<Rightarrow> Inl err
         | Inr raw_result \<Rightarrow>
             if \<not> ok (fst raw_result) then Inr (fst raw_result, messages)
             else Inr (OK,
                    foldl (\<lambda>v raw. v @ [MachineMessage (extractInboxMessage (raw_message raw))
                                           (raw_accumulator raw)])
                      messages (snd raw_result)))"

subsection \<open>Logs cursors\<close>

definition logsCursorGetCurrentTotalCount ::
    "'vs DataStorage \<Rightarrow> 'val DataCursor list \<Rightarrow> nat \<Rightarrow> status \<times> uint256_t" where
  "logsCursorGetCurrentTotalCount tx cursors cursor_index =
     stateGetUint256 tx (current_total_key (cursors ! cursor_index))"

definition logsCursorSaveCurrentTotalCount ::
    "'vs DataStorage \<Rightarrow> 'val DataCursor list \<Rightarrow> nat \<Rightarrow> uint256_t
     \<Rightarrow> status \<times> 'vs DataStorage" where
  "logsCursorSaveCurrentTotalCount tx cursors cursor_index count =
     statePut tx (current_total_key (cursors ! cursor_index)) count"

text \<open>
  \<^verbatim>\<open>handleLogsCursorReorg\<close> in three parts. The first saves the logs that will be
  deleted: it returns a status (not OK for an early return), the cursor and the
  transaction. The fields of the cursor are in memory: what is written to them stays
  written when the call returns early.
\<close>

definition save_deleted_logs ::
    "('vs, 'val) collaborators \<Rightarrow> 'vs DataStorage \<Rightarrow> 'val DataCursor \<Rightarrow> uint256_t \<Rightarrow> uint256_t
     \<Rightarrow> status \<times> 'val DataCursor \<times> 'vs DataStorage" where
  "save_deleted_logs E tx cursor current_count log_count' =
     (if log_count' < pending_total_count cursor
      then
        let logs = getLogsNoLock E tx log_count' (pending_total_count cursor - log_count')
        in if \<not> ok (fst logs) then (fst logs, cursor, tx)
           else
             let cursor' = cursor\<lparr>deleted_data := deleted_data cursor @ rev (snd logs),
                                   pending_total_count := log_count'\<rparr>
             in if current_count > log_count'
                then
                  let put = statePut tx (current_total_key cursor) log_count'
                  in if \<not> ok (fst put) then (fst put, cursor', snd put)
                     else (OK, cursor', snd put)
                else (OK, cursor', tx)
      else (OK, cursor, tx))"

definition truncate_data :: "'val DataCursor \<Rightarrow> uint256_t \<Rightarrow> uint256_t \<Rightarrow> 'val DataCursor" where
  "truncate_data cursor current_count log_count' =
     (if data cursor \<noteq> []
      then
        if current_count \<ge> log_count' then cursor\<lparr>data := []\<rparr>
        else if current_count + of_nat (length (data cursor)) > log_count'
        then cursor\<lparr>data := take (narrow_cast_size_t (log_count' - current_count))
                                 (data cursor)\<rparr>
        else cursor
      else cursor)"

definition downgrade_ready :: "'val DataCursor \<Rightarrow> 'val DataCursor" where
  "downgrade_ready cursor =
     (if cursor_status cursor = READY \<and> data cursor = [] \<and> deleted_data cursor = []
      then cursor\<lparr>cursor_status := REQUESTED\<rparr>
      else cursor)"

definition handleLogsCursorReorg ::
    "('vs, 'val) collaborators \<Rightarrow> ('vs, 'val) ArbCore \<Rightarrow> nat \<Rightarrow> uint256_t
     \<Rightarrow> error + (status \<times> ('vs, 'val) ArbCore)" where
  "handleLogsCursorReorg E core cursor_index log_count' =
     (if cursor_index \<ge> length (logs_cursors core)
      then Inl (RuntimeError ''Invalid logsCursor index'')
      else
        let tx = data_storage core;
            current_count_result =
              logsCursorGetCurrentTotalCount tx (logs_cursors core) cursor_index
        in if \<not> ok (fst current_count_result) then Inr (fst current_count_result, core)
           else
             let c0 = logs_cursors core ! cursor_index;
                 c1 = (if snd current_count_result > pending_total_count c0
                       then c0\<lparr>pending_total_count := snd current_count_result\<rparr>
                       else c0);
                 saved = save_deleted_logs E tx c1 (snd current_count_result) log_count'
             in if \<not> ok (fst saved)
                then Inr (fst saved,
                          core\<lparr>logs_cursors :=
                                 (logs_cursors core)[cursor_index := fst (snd saved)]\<rparr>)
                else
                  let c3 = downgrade_ready
                             (truncate_data (fst (snd saved)) (snd current_count_result)
                                log_count');
                      tx' = snd (snd saved)
                  in Inr (commit tx',
                          core\<lparr>logs_cursors := (logs_cursors core)[cursor_index := c3],
                               data_storage := (if ok (commit tx') then tx'
                                                else data_storage core)\<rparr>))"

subsection \<open>Checkpoints\<close>

definition ToString :: "status \<Rightarrow> string" where
  "ToString s =
     (case s of OK \<Rightarrow> ''OK'' | NotFound \<Rightarrow> ''NotFound: '' | Corruption \<Rightarrow> ''Corruption: ''
      | IOError \<Rightarrow> ''IO error: '' | Busy \<Rightarrow> ''Resource busy: ''
      | TryAgain \<Rightarrow> ''Operation failed. Try again.: '')"



definition checkpointDelete :: "'vs DataStorage \<Rightarrow> uint256_t \<Rightarrow> 'vs DataStorage" where
  "checkpointDelete tx k =
     (if \<not> ok (io_status tx) then tx
      else tx\<lparr>checkpoint_col := col_delete k (checkpoint_col tx)\<rparr>)"




text \<open>\<^verbatim>\<open>getMachineUsingStateKeys\<close>: the four values are loaded from the value store; the
  stacks must be tuples. Every code segment is taken to be loaded already.\<close>

definition getMachineUsingStateKeys ::
    "('vs, 'val) collaborators \<Rightarrow> 'vs DataStorage \<Rightarrow> MachineStateKeys
     \<Rightarrow> error + 'val MachineState" where
  "getMachineUsingStateKeys E tx state_data =
     (case getValue E (value_store tx) (static_f state_data) of
        Inl s \<Rightarrow> Inl (RuntimeError (''failed loaded core machine static: '' @ ToString s))
      | Inr static_val \<Rightarrow>
     (case getValue E (value_store tx) (register_f state_data) of
        Inl s \<Rightarrow> Inl (RuntimeError (''failed loaded core machine register: '' @ ToString s))
      | Inr register_val \<Rightarrow>
     (case getValue E (value_store tx) (datastack_f state_data) of
        Inl s \<Rightarrow> Inl (RuntimeError ''failed to load machine stack'')
      | Inr stack_val \<Rightarrow>
          if \<not> is_Tuple E stack_val then Inl (RuntimeError ''failed to load machine stack'')
          else
     (case getValue E (value_store tx) (auxstack_f state_data) of
        Inl s \<Rightarrow> Inl (RuntimeError ''failed to load machine auxstack'')
      | Inr auxstack_val \<Rightarrow>
          if \<not> is_Tuple E auxstack_val
          then Inl (RuntimeError ''failed to load machine auxstack because of format error'')
          else Inr \<lparr>static_f = static_val, register_f = register_val,
                    datastack_f = stack_val, auxstack_f = auxstack_val,
                    staged_message = staged_message state_data,
                    output_f = output_f state_data\<rparr>))))"

text \<open>\<^verbatim>\<open>getCheckpointUsingGas\<close>: the checkpoint at or before the gas, or the one after
  it.\<close>

definition getCheckpointUsingGas ::
    "'vs DataStorage \<Rightarrow> uint256_t \<Rightarrow> bool \<Rightarrow> status + MachineStateKeys" where
  "getCheckpointUsingGas tx total_gas after_gas =
     (case Valid_entries tx (SeekForPrev (checkpoint_col tx) total_gas) of
        [] \<Rightarrow> if \<not> ok (io_status tx) then Inl (io_status tx) else Inl NotFound
      | e # _ \<Rightarrow>
          if after_gas
          then (case Valid_entries tx (dropWhile (\<lambda>e'. fst e' \<le> fst e) (checkpoint_col tx)) of
                  [] \<Rightarrow> if \<not> ok (io_status tx) then Inl (io_status tx) else Inl NotFound
                | e' # _ \<Rightarrow> Inr (snd e'))
          else Inr (snd e))"

definition getClosestExecutionMachine ::
    "'vs DataStorage \<Rightarrow> uint256_t \<Rightarrow> status + MachineStateKeys" where
  "getClosestExecutionMachine tx total_gas_used = getCheckpointUsingGas tx total_gas_used False"

subsection \<open>Reorganisation\<close>

text \<open>Modelled from the spec: \<^verbatim>\<open>deleteMachineState\<close> is not under src/; deleting a
  checkpoint calls the value store's delete for each hash field (static, register,
  stack, aux) of its state keys.\<close>

definition deleteMachineState ::
    "('vs, 'val) collaborators \<Rightarrow> 'vs DataStorage \<Rightarrow> MachineStateKeys \<Rightarrow> 'vs DataStorage" where
  "deleteMachineState E tx checkpoint =
     tx\<lparr>value_store :=
          deleteValue E (auxstack_f checkpoint)
            (deleteValue E (datastack_f checkpoint)
              (deleteValue E (register_f checkpoint)
                (deleteValue E (static_f checkpoint) (value_store tx))))\<rparr>"

text \<open>
  The search of \<^verbatim>\<open>reorgToMessageOrBefore\<close> over the checkpoints from the highest gas
  down (the list of the entries in that order): the target checkpoint and the
  transaction with the obsolete checkpoints deleted, or the status of the iterator when
  it runs out. A checkpoint that is low enough and not valid is asserted not to occur;
  with assertions compiled out it is deleted like an obsolete one.
\<close>

fun reorg_checkpoints ::
    "runtime \<Rightarrow> ('vs, 'val) collaborators \<Rightarrow> uint256_t \<Rightarrow> bool \<Rightarrow> 'vs DataStorage
     \<Rightarrow> MachineStateKeys column
     \<Rightarrow> error + (status + (MachineStateKeys \<times> 'vs DataStorage))" where
  "reorg_checkpoints R E message_sequence_number use_latest tx [] = Inr (Inl (io_status tx))"
| "reorg_checkpoints R E message_sequence_number use_latest tx (e # before) =
     (if (getTotalMessagesRead (snd e) = 0 \<or> use_latest \<or>
          message_sequence_number \<ge> getTotalMessagesRead (snd e) - 1) \<and>
         isValid R tx (fully_processed_inbox (output_f (snd e)))
      then Inr (Inr (snd e, tx))
      else if (getTotalMessagesRead (snd e) = 0 \<or> use_latest \<or>
               message_sequence_number \<ge> getTotalMessagesRead (snd e) - 1) \<and>
              assert_aborts R False
      then Inl AssertionFailure
      else
        let tx' = checkpointDelete (deleteMachineState E tx (snd e)) (fst e)
        in if \<not> ok (io_status tx') then Inr (Inl (io_status tx'))
           else reorg_checkpoints R E message_sequence_number use_latest tx' before)"

text \<open>\<^verbatim>\<open>deleteLogsStartingAt\<close>: the value of every log from \<open>log_index\<close> on is deleted
  from the value store; \<open>None\<close> is \<^verbatim>\<open>std::nullopt\<close>.\<close>

definition deleteLogsStartingAt ::
    "('vs, 'val) collaborators \<Rightarrow> 'vs DataStorage \<Rightarrow> uint256_t
     \<Rightarrow> status option \<times> 'vs DataStorage" where
  "deleteLogsStartingAt E tx log_index =
     (if IsNotFound (io_status tx) then (None, tx)
      else if \<not> ok (io_status tx) then (Some (io_status tx), tx)
      else
        let visited = Valid_entries tx (Seek (log_col tx) log_index);
            tx' = fold (\<lambda>e t. t\<lparr>value_store := deleteValue E (snd e) (value_store t)\<rparr>)
                    visited tx
        in if \<not> ok (io_status tx') then (Some (io_status tx'), tx')
           else (Some OK, tx'))"

text \<open>The loop over the logs cursors.\<close>

fun handle_all_cursors ::
    "('vs, 'val) collaborators \<Rightarrow> ('vs, 'val) ArbCore \<Rightarrow> nat list \<Rightarrow> uint256_t
     \<Rightarrow> error + (status \<times> ('vs, 'val) ArbCore)" where
  "handle_all_cursors E core [] log_count' = Inr (OK, core)"
| "handle_all_cursors E core (i # rest) log_count' =
     (case handleLogsCursorReorg E core i log_count' of
        Inl err \<Rightarrow> Inl err
      | Inr res \<Rightarrow>
          if \<not> ok (fst res) then Inr (fst res, snd res)
          else handle_all_cursors E (snd res) rest log_count')"

text \<open>
  The second half of \<^verbatim>\<open>reorgToMessageOrBefore\<close>, after the target checkpoint has been
  found and the deletion of the obsolete checkpoints committed, in two parts: the
  logs cursors are told of the new log count (\<open>reorg_to_checkpoint\<close>), then the
  sideloads, logs and counters are cut back and the machine is restored in one
  transaction (\<open>restore_checkpoint\<close>).
\<close>

definition restore_checkpoint ::
    "('vs, 'val) collaborators \<Rightarrow> ('vs, 'val) ArbCore \<Rightarrow> MachineStateKeys
     \<Rightarrow> error + (status \<times> ('vs, 'val) ArbCore)" where
  "restore_checkpoint E core checkpoint =
     (let next_sideload_block_number =
            (case last_sideload (output_f checkpoint) of None \<Rightarrow> 0 | Some b \<Rightarrow> b + 1);
          sideloads = deleteSideloadsStartingAt core (data_storage core)
                        next_sideload_block_number;
          core' = fst (snd sideloads)
      in if \<not> ok (fst sideloads) then Inr (fst sideloads, core')
         else
           let logs = deleteLogsStartingAt E (snd (snd sideloads))
                        (log_count (output_f checkpoint))
           in if (case fst logs of None \<Rightarrow> False | Some s \<Rightarrow> \<not> ok s)
              then Inr (case fst logs of None \<Rightarrow> OK | Some s \<Rightarrow> s, core')
              else
                let put_logs = updateLogInsertedCount (snd logs)
                                 (log_count (output_f checkpoint))
                in if \<not> ok (fst put_logs) then Inr (fst put_logs, core')
                   else
                     let put_sends = updateSendInsertedCount (snd put_logs)
                                       (send_count (output_f checkpoint))
                     in if \<not> ok (fst put_sends) then Inr (fst put_sends, core')
                        else
                          case getMachineUsingStateKeys E (snd put_sends) checkpoint of
                            Inl err \<Rightarrow> Inl err
                          | Inr m \<Rightarrow>
                              Inr (commit (snd put_sends),
                                   core'\<lparr>machine := Some m,
                                          last_machine_output := output_f m,
                                          data_storage :=
                                            (if ok (commit (snd put_sends))
                                             then snd put_sends
                                             else data_storage core')\<rparr>))"

definition reorg_to_checkpoint ::
    "('vs, 'val) collaborators \<Rightarrow> ('vs, 'val) ArbCore \<Rightarrow> MachineStateKeys
     \<Rightarrow> error + (status \<times> ('vs, 'val) ArbCore)" where
  "reorg_to_checkpoint E core checkpoint =
     (let log_inserted_count = logInsertedCountImpl (data_storage core)
      in if \<not> ok (fst log_inserted_count) then Inr (fst log_inserted_count, core)
         else
           case (if log_count (output_f checkpoint) < snd log_inserted_count
                 then handle_all_cursors E core [0..<length (logs_cursors core)]
                        (log_count (output_f checkpoint))
                 else Inr (OK, core)) of
             Inl err \<Rightarrow> Inl err
           | Inr handled \<Rightarrow>
               if \<not> ok (fst handled) then Inr (fst handled, snd handled)
               else restore_checkpoint E (snd handled) checkpoint)"

definition reorgToMessageOrBefore ::
    "runtime \<Rightarrow> ('vs, 'val) collaborators \<Rightarrow> ('vs, 'val) ArbCore \<Rightarrow> uint256_t \<Rightarrow> bool
     \<Rightarrow> error + (status \<times> ('vs, 'val) ArbCore)" where
  "reorgToMessageOrBefore R E core message_sequence_number use_latest =
     (let tx = data_storage core
      in if \<not> ok (io_status tx) then Inr (io_status tx, core)
         else if Valid_entries tx (checkpoint_col tx) = [] then Inr (NotFound, core)
         else
           case reorg_checkpoints R E message_sequence_number use_latest tx
                  (rev (Valid_entries tx (checkpoint_col tx))) of
             Inl err \<Rightarrow> Inl err
           | Inr (Inl s) \<Rightarrow> Inr (s, core)
           | Inr (Inr found) \<Rightarrow>
               if \<not> ok (commit (snd found)) then Inr (commit (snd found), core)
               else reorg_to_checkpoint E (core\<lparr>data_storage := snd found\<rparr>) (fst found))"

subsection \<open>Execution cursors\<close>

text \<open>The machine of an execution cursor is either the state keys of a checkpoint or a
  machine built from them.\<close>

datatype 'val ExecutionCursor = KeysOnly MachineStateKeys | LiveMachine "'val MachineState"

definition getOutput :: "'val ExecutionCursor \<Rightarrow> MachineOutput" where
  "getOutput cursor = (case cursor of KeysOnly k \<Rightarrow> output_f k | LiveMachine m \<Rightarrow> output_f m)"

definition resolveExecutionCursorMachine ::
    "('vs, 'val) collaborators \<Rightarrow> 'vs DataStorage \<Rightarrow> 'val ExecutionCursor
     \<Rightarrow> error + 'val MachineState" where
  "resolveExecutionCursorMachine E tx cursor =
     (case cursor of
        KeysOnly machine_state_keys \<Rightarrow> getMachineUsingStateKeys E tx machine_state_keys
      | LiveMachine m \<Rightarrow> Inr m)"

text \<open>
  The inner loop \<^verbatim>\<open>while (true)\<close> of \<^verbatim>\<open>advanceExecutionCursorImpl\<close> ends with the gas
  reached (\<open>Advanced\<close>), with \<open>handle_reorg\<close> set (\<open>HandleReorg\<close>), or with a status
  returned from the function (\<open>Returns\<close>); an exception is the left summand. The VM
  may run without end, so the loop is a partial function: \<open>None\<close> when it does not end.
\<close>

datatype 'val inner_loop_end =
    Advanced "'val ExecutionCursor"
  | HandleReorg "'val ExecutionCursor"
  | Returns status "'val ExecutionCursor"

partial_function (option) advance_inner_loop ::
    "runtime \<Rightarrow> ('vs, 'val) collaborators \<Rightarrow> 'vs DataStorage \<Rightarrow> uint256_t \<Rightarrow> bool \<Rightarrow> nat
     \<Rightarrow> 'val ExecutionCursor \<Rightarrow> (error + 'val inner_loop_end) option" where
  "advance_inner_loop R E tx total_gas_used go_over_gas message_group_size cursor =
     (case resolveExecutionCursorMachine E tx cursor of
        Inl err \<Rightarrow> Some (Inl err)
      | Inr mach \<Rightarrow>
          if arb_gas_used (output_f mach) = total_gas_used
          then Some (Inr (Advanced (LiveMachine mach)))
          else if go_over_gas \<and> arb_gas_used (output_f mach) > total_gas_used
          then Some (Inr (Advanced (LiveMachine mach)))
          else if \<not> go_over_gas \<and>
                  arb_gas_used (output_f mach) + nextGasCost E mach > total_gas_used
          then Some (Inr (Advanced (LiveMachine mach)))
          else
            case readNextMessages R tx (fully_processed_inbox (output_f mach))
                   message_group_size of
              Inl err \<Rightarrow> Some (Inl err)
            | Inr get_messages_result \<Rightarrow>
                if \<not> IsNotFound (fst get_messages_result)
                then Some (Inr (HandleReorg (LiveMachine mach)))
                else if \<not> ok (fst get_messages_result)
                then Some (Inr (Returns (fst get_messages_result) (LiveMachine mach)))
                else
                  if snd (run_machine E total_gas_used go_over_gas
                            (snd get_messages_result) mach) = 0
                  then Some (Inr (Advanced (LiveMachine
                         (fst (run_machine E total_gas_used go_over_gas
                                 (snd get_messages_result) mach)))))
                  else advance_inner_loop R E tx total_gas_used go_over_gas message_group_size
                         (LiveMachine (fst (run_machine E total_gas_used go_over_gas
                                              (snd get_messages_result) mach))))"

text \<open>The outer loop \<^verbatim>\<open>while (handle_reorg)\<close>, entered with \<open>reorg_attempts\<close>: the status
  returned and the cursor. Every pass after the first starts with \<^verbatim>\<open>assert(false)\<close>.\<close>

function advance_reorg_loop ::
    "runtime \<Rightarrow> ('vs, 'val) collaborators \<Rightarrow> 'vs DataStorage \<Rightarrow> uint256_t \<Rightarrow> bool \<Rightarrow> nat
     \<Rightarrow> 'val ExecutionCursor \<Rightarrow> nat \<Rightarrow> (error + status \<times> 'val ExecutionCursor) option" where
  "advance_reorg_loop R E tx total_gas_used go_over_gas message_group_size cursor
       reorg_attempts =
     (if reorg_attempts > 0 \<and> assert_aborts R False then Some (Inl AssertionFailure)
      else if reorg_attempts > 0 \<and> reorg_attempts \<ge> 16 then Some (Inr (Busy, cursor))
      else
        case advance_inner_loop R E tx total_gas_used go_over_gas message_group_size cursor of
          None \<Rightarrow> None
        | Some (Inl err) \<Rightarrow> Some (Inl err)
        | Some (Inr (Returns s cursor')) \<Rightarrow> Some (Inr (s, cursor'))
        | Some (Inr (Advanced cursor')) \<Rightarrow> Some (Inr (OK, cursor'))
        | Some (Inr (HandleReorg cursor')) \<Rightarrow>
            (case getClosestExecutionMachine tx total_gas_used of
               Inl s \<Rightarrow> Some (Inr (s, cursor'))
             | Inr closest_checkpoint \<Rightarrow>
                 advance_reorg_loop R E tx total_gas_used go_over_gas message_group_size
                   (KeysOnly closest_checkpoint) (reorg_attempts + 1)))"
  by pat_completeness auto
termination
  by (relation "measure (\<lambda>(R, E, tx, total_gas_used, go_over_gas, message_group_size, cursor,
                           reorg_attempts). 16 - reorg_attempts)") auto

definition advanceExecutionCursorImpl ::
    "runtime \<Rightarrow> ('vs, 'val) collaborators \<Rightarrow> 'vs DataStorage \<Rightarrow> 'val ExecutionCursor
     \<Rightarrow> uint256_t \<Rightarrow> bool \<Rightarrow> nat \<Rightarrow> (error + status \<times> 'val ExecutionCursor) option" where
  "advanceExecutionCursorImpl R E tx execution_cursor total_gas_used go_over_gas
       message_group_size =
     advance_reorg_loop R E tx total_gas_used go_over_gas message_group_size execution_cursor 0"

text \<open>\<^verbatim>\<open>getExecutionCursor\<close>: no cursor when no checkpoint is at or below the gas.\<close>

definition getExecutionCursor ::
    "runtime \<Rightarrow> ('vs, 'val) collaborators \<Rightarrow> 'vs DataStorage \<Rightarrow> uint256_t
     \<Rightarrow> (error + status \<times> 'val ExecutionCursor option) option" where
  "getExecutionCursor R E tx total_gas_used =
     (case getClosestExecutionMachine tx total_gas_used of
        Inl s \<Rightarrow> Some (Inr (s, None))
      | Inr closest_checkpoint \<Rightarrow>
          (case advanceExecutionCursorImpl R E tx (KeysOnly closest_checkpoint) total_gas_used
                  False 10 of
             None \<Rightarrow> None
           | Some (Inl err) \<Rightarrow> Some (Inl err)
           | Some (Inr res) \<Rightarrow> Some (Inr (fst res, Some (snd res)))))"

subsection \<open>Well-formed stores\<close>

text \<open>The logs below the inserted count \<open>n\<close> are stored: the \<open>i\<close>-th entry of the log
  column has key \<open>i\<close>, and its hash loads from the value store to the value \<open>f i\<close>.\<close>

definition logs_stored ::
    "('vs, 'val) collaborators \<Rightarrow> 'vs DataStorage \<Rightarrow> uint256_t \<Rightarrow> (nat \<Rightarrow> 'val) \<Rightarrow> bool" where
  "logs_stored E tx n f =
     (unat n \<le> length (log_col tx) \<and>
      (\<forall>i < unat n. fst (log_col tx ! i) = of_nat i \<and>
                    getValue E (value_store tx) (snd (log_col tx ! i)) = Inr (f i)))"

text \<open>No entry of the cache is more than 20 blocks behind another.\<close>

definition within_window :: "'m column \<Rightarrow> bool" where
  "within_window c = (\<forall>e \<in> set c. \<forall>e' \<in> set c. unat (fst e') \<le> unat (fst e) + 20)"

text \<open>Two stores that differ at most in the state column (the counters).\<close>

definition same_but_state :: "'vs DataStorage \<Rightarrow> 'vs DataStorage \<Rightarrow> bool" where
  "same_but_state a b =
     (io_status a = io_status b \<and> checkpoint_col a = checkpoint_col b \<and>
      log_col a = log_col b \<and> send_col a = send_col b \<and>
      sequencer_batch_item_col a = sequencer_batch_item_col b \<and>
      delayed_message_col a = delayed_message_col b \<and>
      sideload_col a = sideload_col b \<and> value_store a = value_store b)"

subsection \<open>A small store\<close>

text \<open>
  A concrete instance, used to run the operations. Values are numbers and the
  value store maps a hash to a reference count and a value; deleting a hash lowers its
  count and removes the entry at zero. The toy VM runs to the gas target in one step.
\<close>

type_synonym ex_values = "uint256_t \<Rightarrow> (nat \<times> nat) option"

definition ex_E :: "(ex_values, nat) collaborators" where
  "ex_E =
     \<lparr>getValue = (\<lambda>vs h. case vs h of None \<Rightarrow> Inl NotFound | Some rv \<Rightarrow> Inr (snd rv)),
      deleteValue = (\<lambda>h vs. case vs h of
                       None \<Rightarrow> vs
                     | Some rv \<Rightarrow> if fst rv \<le> 1 then vs(h := None)
                                  else vs(h \<mapsto> (fst rv - 1, snd rv))),
      saveMachineState = (\<lambda>m vs. (OK, vs)),
      hash_value = of_nat,
      is_Tuple = (\<lambda>v. v \<noteq> 0),
      nextGasCost = (\<lambda>m. 1),
      run_machine = (\<lambda>max_gas go_over_gas inbox_messages m.
                       (m\<lparr>output_f := (output_f m)\<lparr>arb_gas_used := max_gas\<rparr>\<rparr>,
                        max_gas - arb_gas_used (output_f m))),
      continueRunningMachine = (\<lambda>m. True)\<rparr>"

definition ex_checkpoint ::
    "uint256_t \<Rightarrow> uint256_t \<Rightarrow> uint256_t \<Rightarrow> uint256_t \<Rightarrow> uint256_t \<Rightarrow> uint256_t
     \<Rightarrow> uint256_t option \<Rightarrow> MachineStateKeys" where
  "ex_checkpoint h gas msgs acc' logs sends sideload =
     \<lparr>static_f = h, register_f = h + 1, datastack_f = h + 2, auxstack_f = h + 3,
      staged_message = None,
      output_f = \<lparr>fully_processed_inbox = \<lparr>inbox_count = msgs, inbox_accumulator = acc'\<rparr>,
                  arb_gas_used = gas, log_count = logs, send_count = sends,
                  last_sideload = sideload\<rparr>\<rparr>"

text \<open>Four messages: a sequencer message, two delayed messages in one batch item, and
  a sequencer message; three logs, two sends, and checkpoints at gas 0, 50 and 100.\<close>

definition ex_tx :: "ex_values DataStorage" where
  "ex_tx =
     \<lparr>io_status = OK,
      state_col = map_of [(log_inserted_key, 3), (send_inserted_key, 2),
                          (message_entry_inserted_key, 4),
                          (logscursor_current_prefix @ [0], 1)],
      checkpoint_col = [(0, ex_checkpoint 20 0 0 0 0 0 None),
                        (50, ex_checkpoint 24 50 1 1000 1 1 (Some 5)),
                        (100, ex_checkpoint 28 100 3 1002 3 2 (Some 6))],
      log_col = [(0, 10), (1, 11), (2, 12)],
      send_col = [(0, [1]), (1, [2])],
      sequencer_batch_item_col = [(0, (0, 1000, Some [7])), (2, (2, 1002, None)),
                                  (3, (2, 1003, Some [10]))],
      delayed_message_col = [(0, [8]), (1, [9])],
      sideload_col = [(5, 50), (6, 100)],
      value_store = map_of [(10, (1, 100)), (11, (1, 101)), (12, (2, 102)),
                            (20, (1, 1)), (21, (1, 1)), (22, (1, 1)), (23, (1, 1)),
                            (24, (1, 1)), (25, (1, 1)), (26, (1, 1)), (27, (1, 1)),
                            (28, (1, 1)), (29, (1, 1)), (30, (1, 1)), (31, (1, 1))]\<rparr>"

definition ex_machine :: "nat MachineState" where
  "ex_machine =
     \<lparr>static_f = 1, register_f = 1, datastack_f = 1, auxstack_f = 1,
      staged_message = None,
      output_f = \<lparr>fully_processed_inbox = \<lparr>inbox_count = 3, inbox_accumulator = 1002\<rparr>,
                  arb_gas_used = 100, log_count = 3, send_count = 2,
                  last_sideload = Some 6\<rparr>\<rparr>"

definition ex_cursor :: "nat DataCursor" where
  "ex_cursor =
     \<lparr>cursor_status = READY, current_total_key = logscursor_current_prefix @ [0],
      pending_total_count = 3, data = [], deleted_data = [], number_requested = 2,
      error_string = []\<rparr>"

definition ex_core :: "(ex_values, nat) ArbCore" where
  "ex_core =
     \<lparr>data_storage = ex_tx, machine = Some ex_machine,
      sideload_cache = cache_sideload 6 ex_machine (cache_sideload 5 ex_machine []),
      logs_cursors = [ex_cursor],
      last_machine_output = output_f ex_machine\<rparr>"

text \<open>The machine of the checkpoint at gas 0.\<close>

definition ex_machine_0 :: "nat MachineState" where
  "ex_machine_0 =
     \<lparr>static_f = 1, register_f = 1, datastack_f = 1, auxstack_f = 1,
      staged_message = None,
      output_f = \<lparr>fully_processed_inbox = \<lparr>inbox_count = 0, inbox_accumulator = 0\<rparr>,
                  arb_gas_used = 0, log_count = 0, send_count = 0,
                  last_sideload = None\<rparr>\<rparr>"

text \<open>The machine of the checkpoint at gas 50.\<close>

definition ex_machine_50 :: "nat MachineState" where
  "ex_machine_50 =
     \<lparr>static_f = 1, register_f = 1, datastack_f = 1, auxstack_f = 1,
      staged_message = None,
      output_f = \<lparr>fully_processed_inbox = \<lparr>inbox_count = 1, inbox_accumulator = 1000\<rparr>,
                  arb_gas_used = 50, log_count = 1, send_count = 1,
                  last_sideload = Some 5\<rparr>\<rparr>"

text \<open>The same store after the upstream feed has rewritten the message history (other
  accumulators), and the core on it: its machine and its checkpoints above gas 0 are
  no longer confirmed by the message log.\<close>

definition ex_tx_rewritten :: "ex_values DataStorage" where
  "ex_tx_rewritten =
     ex_tx\<lparr>sequencer_batch_item_col := [(0, (0, 2000, Some [6])), (2, (2, 2002, None)),
                                         (3, (2, 2003, Some [10]))]\<rparr>"


text \<open>
  Two builds of the program on that store, without and with assertions. The stored keys
  are counts of messages; the 32 bytes read through the stale pointers are heap bytes
  that were never a key, and here they read as a number above every stored key.
\<close>

definition ex_heap_bytes :: uint256_t where
  "ex_heap_bytes = 1766847064778384329583297500742918515827483896875618958121606201292619776"

definition ex_R :: runtime where
  "ex_R =
     \<lparr>NDEBUG = True,
      seq_batch_lower_bound_bytes = (\<lambda>start. ex_heap_bytes),
      delayed_msg_lower_bound_bytes = (\<lambda>prev_delayed_count. ex_heap_bytes),
      next_item_lower_bound_bytes = (\<lambda>sequence_number. ex_heap_bytes)\<rparr>"

definition ex_R_debug :: runtime where
  "ex_R_debug = ex_R\<lparr>NDEBUG := False\<rparr>"

text \<open>The small store as a reorganisation from four logs to three leaves it: the entry
  of log 3 is still in the log column (\<^verbatim>\<open>deleteLogsStartingAt\<close> deletes values, not
  entries), and its value is gone.\<close>

definition ex_tx_cut_back :: "ex_values DataStorage" where
  "ex_tx_cut_back = ex_tx\<lparr>log_col := [(0, 10), (1, 11), (2, 12), (3, 13)]\<rparr>"

section \<open>Properties\<close>

subsection \<open>The mailbox slot\<close>

text \<open>
  C10. \<^verbatim>\<open>messagesStatus()\<close> is not a pure read: it always returns the stored status;
  when that status is SUCCESS, NEED_OLDER or EMPTY the slot is EMPTY afterwards (so a
  SUCCESS or NEED_OLDER slot is changed by the read), and when it is READY or ERROR the
  slot is unchanged.
\<close>

theorem messagesStatus_resets_terminal:
  "fst (messagesStatus s) = s \<and>
   (s \<in> {MESSAGES_SUCCESS, MESSAGES_NEED_OLDER, MESSAGES_EMPTY} \<longrightarrow>
      snd (messagesStatus s) = MESSAGES_EMPTY) \<and>
   (s \<in> {MESSAGES_READY, MESSAGES_ERROR} \<longrightarrow> snd (messagesStatus s) = s) \<and>
   snd (messagesStatus MESSAGES_SUCCESS) \<noteq> MESSAGES_SUCCESS \<and>
   snd (messagesStatus MESSAGES_NEED_OLDER) \<noteq> MESSAGES_NEED_OLDER"
  by (cases s) (simp_all add: messagesStatus_def)

theorem messagesStatus_resets_terminal_witness:
  "MESSAGES_SUCCESS \<in> {MESSAGES_SUCCESS, MESSAGES_NEED_OLDER, MESSAGES_EMPTY} \<and>
   messagesStatus MESSAGES_SUCCESS = (MESSAGES_SUCCESS, MESSAGES_EMPTY) \<and>
   MESSAGES_READY \<in> {MESSAGES_READY, MESSAGES_ERROR} \<and>
   messagesStatus MESSAGES_READY = (MESSAGES_READY, MESSAGES_READY)"
  using messagesStatus_resets_terminal [of MESSAGES_SUCCESS]
    messagesStatus_resets_terminal [of MESSAGES_READY]
  by (simp add: messagesStatus_def)

subsection \<open>Evaluation of the small store\<close>

lemmas state_keys =
  log_inserted_key_def log_processed_key_def send_inserted_key_def send_processed_key_def
  message_entry_inserted_key_def logscursor_current_prefix_def

lemmas read_simps =
  ok_def IsNotFound_def Valid_entries_def Seek_def stateGetUint256_def
  logInsertedCountImpl_def sendInsertedCountImpl_def getVectorUsingKey_def
  logGetUint256Vector_def sendGetVectorVector_def narrow_cast_size_t_def

lemma ex_tx_healthy: "io_status ex_tx = OK"
  by (simp add: ex_tx_def)

lemma ex_tx_log_inserted: "state_col ex_tx log_inserted_key = Some 3"
  by (simp add: ex_tx_def state_keys)

lemma ex_tx_counts:
  "logInsertedCountImpl ex_tx = (OK, 3)" "sendInsertedCountImpl ex_tx = (OK, 2)"
  by (simp_all add: ex_tx_def state_keys read_simps)

subsection \<open>Sends and logs past the tail\<close>

text \<open>
  C9. With \<open>count > 0\<close> and \<open>index\<close> at or past \<open>send_inserted_count\<close>, \<open>getSends\<close> returns
  not-found and no sends, where \<open>getLogs\<close> at or past \<open>log_inserted_count\<close> returns OK
  and no logs; with \<open>count = 0\<close>, \<open>getSends\<close> returns OK and no sends.
\<close>

theorem getSends_past_tail_NotFound:
  assumes "sendInsertedCountImpl tx = (OK, n)" and "logInsertedCountImpl tx = (OK, m)"
  shows "(0 < count \<and> n \<le> index \<longrightarrow> getSends tx index count = (NotFound, [])) \<and>
         (0 < count \<and> m \<le> index \<longrightarrow> getLogsNoLock E tx index count = (OK, [])) \<and>
         getSends tx index 0 = (OK, [])"
  using assms by (auto simp: getSends_def getLogsNoLock_def ok_def)

theorem getSends_past_tail_NotFound_witness:
  "sendInsertedCountImpl ex_tx = (OK, 2) \<and> logInsertedCountImpl ex_tx = (OK, 3) \<and>
   (0 :: uint256_t) < 1 \<and> (2 :: uint256_t) \<le> 2 \<and> (3 :: uint256_t) \<le> 3 \<and>
   getSends ex_tx 2 1 = (NotFound, []) \<and>
   getLogsNoLock ex_E ex_tx 3 1 = (OK, []) \<and>
   getSends ex_tx 2 0 = (OK, [])"
  using getSends_past_tail_NotFound [OF ex_tx_counts(2) ex_tx_counts(1), of 1 2 ex_E]
    getSends_past_tail_NotFound [OF ex_tx_counts(2) ex_tx_counts(1), of 1 3 ex_E]
  by (simp add: ex_tx_counts)

subsection \<open>Reading logs\<close>

lemma load_logs_all:
  "(\<And>j. j < length hs \<Longrightarrow> getValue E vs (hs ! j) = Inr (g j)) \<Longrightarrow>
   load_logs E vs hs logs = (OK, logs @ map g [0..<length hs])"
proof (induction hs arbitrary: logs g)
  case Nil
  then show ?case by simp
next
  case (Cons h hs)
  have h0: "getValue E vs h = Inr (g 0)" using Cons.prems [of 0] by simp
  have rest: "\<And>j. j < length hs \<Longrightarrow> getValue E vs (hs ! j) = Inr ((g \<circ> Suc) j)"
    using Cons.prems [of "Suc _"] by simp
  have "map g [0..<length (h # hs)] = g 0 # map (g \<circ> Suc) [0..<length hs]"
    by (simp add: upt_conv_Cons map_Suc_upt [symmetric] del: upt_Suc)
  then show ?case using Cons.IH [OF rest] h0 by simp
qed

lemma Seek_dense:
  assumes len: "N \<le> length col"
    and keys: "\<And>i. i < N \<Longrightarrow> fst (col ! i) = (of_nat i :: uint256_t)"
    and k: "unat index < N" and N: "N \<le> 2 ^ 256"
  shows "Seek col index = drop (unat index) col"
proof -
  let ?P = "\<lambda>e. fst e < index"
  have small: "\<And>i. i < N \<Longrightarrow> unat (of_nat i :: uint256_t) = i"
    using N by (simp add: unat_of_nat)
  have "takeWhile ?P col = take (unat index) col"
  proof (rule takeWhile_eq_take_P_nth)
    fix i assume "i < unat index" "i < length col"
    then show "fst (col ! i) < index"
      using keys [of i] k small [of i] by (simp add: word_less_nat_alt)
  next
    assume "unat index < length col"
    show "\<not> fst (col ! unat index) < index"
      using keys [OF k] by simp
  qed
  then show ?thesis
    using len k by (simp add: Seek_def dropWhile_eq_drop min_def)
qed

lemma getLogsNoLock_range:
  assumes healthy: "io_status tx = OK"
    and cnt: "state_col tx log_inserted_key = Some n"
    and fits: "unat n < 2 ^ 64"
    and stored: "logs_stored E tx n f"
    and h: "count \<noteq> 0 \<and> index < n \<and> unat index + unat count < 2 ^ 256"
  shows "getLogsNoLock E tx index count =
           (OK, map f [unat index..<unat index + min (unat count) (unat n - unat index)])"
proof -
  have rd: "logInsertedCountImpl tx = (OK, n)"
    using healthy cnt by (simp add: logInsertedCountImpl_def stateGetUint256_def ok_def)
  define c' where "c' = (if index + count > n then n - index else count)"
  define c where "c = min (unat count) (unat n - unat index)"
  have lt: "unat index < unat n" using h by (simp add: word_less_nat_alt)
  have add: "unat (index + count) = unat index + unat count"
    using h unat_add_lem [of index count] by simp
  have sub: "unat (n - index) = unat n - unat index"
    using h by (intro unat_sub less_imp_le) simp
  have c'_c: "unat c' = c"
    using add sub lt by (auto simp: c'_def c_def word_less_nat_alt min_def)
  have cle: "unat index + c \<le> unat n" using lt by (simp add: c_def)
  have nc: "narrow_cast_size_t c' = c"
    using c'_c cle fits by (simp add: narrow_cast_size_t_def)
  have len: "unat n \<le> length (log_col tx)"
    and keys: "\<And>i. i < unat n \<Longrightarrow> fst (log_col tx ! i) = of_nat i"
    and vals: "\<And>i. i < unat n \<Longrightarrow>
                 getValue E (value_store tx) (snd (log_col tx ! i)) = Inr (f i)"
    using stored by (simp_all add: logs_stored_def)
  have sk: "Seek (log_col tx) index = drop (unat index) (log_col tx)"
    by (rule Seek_dense [OF len keys lt]) (use fits in simp_all)
  let ?hs = "map snd (take c (drop (unat index) (log_col tx)))"
  have hs: "logGetUint256Vector tx index c = (OK, ?hs)"
    using healthy sk len cle
    by (simp add: logGetUint256Vector_def getVectorUsingKey_def ok_def)
  have lenhs: "length ?hs = c" using len cle by simp
  have nth: "\<And>j. j < length ?hs \<Longrightarrow>
      getValue E (value_store tx) (?hs ! j) = Inr (f (unat index + j))"
    using len cle vals by (simp add: add.commute)
  have "load_logs E (value_store tx) ?hs [] =
          (OK, [] @ map (\<lambda>j. f (unat index + j)) [0..<length ?hs])"
    by (rule load_logs_all [OF nth])
  also have "map (\<lambda>j. f (unat index + j)) [0..<length ?hs] =
               map f [unat index..<unat index + c]"
    unfolding lenhs by (rule nth_equalityI) simp_all
  finally have ld: "load_logs E (value_store tx) ?hs [] =
          (OK, map f [unat index..<unat index + c])" by simp
  have nle: "\<not> n \<le> index" using h by (simp add: not_le)
  have "getLogsNoLock E tx index count = load_logs E (value_store tx) ?hs []"
    using h rd hs nc nle by (simp add: getLogsNoLock_def Let_def ok_def c'_def [symmetric])
  then show ?thesis using ld by (simp add: c_def)
qed

text \<open>
  C6. \<open>getLogs\<close> below the tail is to return OK and \<open>min count (log_inserted_count - index)\<close>
  logs. The clamp (under the comment \<^verbatim>\<open>Check if attempting to get entries past current
  valid logs\<close>) compares \<open>index + count\<close>, computed in 256 bits, with the inserted count.
  On the store cut back to three logs, index 1 with count 2 returns logs 1 and 2; with
  count \<open>2^256 - 1\<close> the sum wraps to 0, the count is not clamped to 2, the read runs past
  the three valid logs, and the result is not-found with no logs.
\<close>

theorem getLogs_count_wraps_past_clamp:
  "logInsertedCountImpl ex_tx_cut_back = (OK, 3) \<and> (1 :: uint256_t) < 3 \<and>
   getLogsNoLock ex_E ex_tx_cut_back 1 2 = (OK, [101, 102]) \<and>
   (1 :: uint256_t) + (- 1) = 0 \<and>
   getLogsNoLock ex_E ex_tx_cut_back 1 (- 1) = (NotFound, [])"
  by (simp add: getLogsNoLock_def Let_def ex_tx_cut_back_def ex_tx_def ex_E_def state_keys
      read_simps unsigned_minus_1_eq_mask mask_eq_exp_minus_1 word_le_nat_alt)

text \<open>
  Where the sum does not wrap, the clamp works. On a healthy store whose log column
  holds, for every \<open>i\<close> below \<open>log_inserted_count = n\<close> (a number that fits \<^verbatim>\<open>size_t\<close>), an
  entry keyed \<open>i\<close> whose hash loads from the value store to the value \<open>f i\<close>: \<open>getLogs\<close>
  with \<open>index \<ge> n\<close> or \<open>count = 0\<close> returns OK and no logs; with \<open>index < n\<close>, \<open>count > 0\<close>
  and \<open>index + count\<close> below \<open>2^256\<close> it returns OK and the logs
  \<open>f index, f (index + 1), \<dots>\<close>, \<open>min count (n - index)\<close> of them.
\<close>

lemma getLogsNoLock_clamped_without_wrap:
  assumes healthy: "io_status tx = OK"
    and cnt: "state_col tx log_inserted_key = Some n"
    and fits: "unat n < 2 ^ 64"
    and stored: "logs_stored E tx n f"
  shows "(count = 0 \<or> n \<le> index \<longrightarrow> getLogsNoLock E tx index count = (OK, [])) \<and>
         (count \<noteq> 0 \<and> index < n \<and> unat index + unat count < 2 ^ 256 \<longrightarrow>
            getLogsNoLock E tx index count =
              (OK, map f [unat index..<unat index + min (unat count) (unat n - unat index)]))"
proof (intro conjI impI)
  have rd: "logInsertedCountImpl tx = (OK, n)"
    using healthy cnt by (simp add: logInsertedCountImpl_def stateGetUint256_def ok_def)
  show "getLogsNoLock E tx index count = (OK, [])" if "count = 0 \<or> n \<le> index"
    using that rd by (auto simp: getLogsNoLock_def ok_def)
  show "getLogsNoLock E tx index count =
          (OK, map f [unat index..<unat index + min (unat count) (unat n - unat index)])"
    if "count \<noteq> 0 \<and> index < n \<and> unat index + unat count < 2 ^ 256"
    using getLogsNoLock_range [OF healthy cnt fits stored that] .
qed

subsection \<open>The sideload cache\<close>

lemma evict_sideloads_filter:
  "evict_sideloads block c =
     filter (\<lambda>e. \<not> ((block > sideload_cache_size \<and> fst e < block - sideload_cache_size) \<or> fst e > block)) c"
  by (induction c) auto

lemma set_col_put_keys: "fst ` set (col_put k v c) = insert k (fst ` set c)"
proof (induction c)
  case Nil
  then show ?case by simp
next
  case (Cons e c)
  obtain k' v' where e: "e = (k', v')" by (cases e)
  show ?case using Cons.IH by (auto simp: e)
qed

lemma ordered_col_put: "ordered_col c \<Longrightarrow> ordered_col (col_put k v c)"
proof (induction c)
  case Nil
  then show ?case by (simp add: ordered_col_def col_keys_def)
next
  case (Cons e c)
  obtain k' v' where e: "e = (k', v')" by (cases e)
  have tl: "ordered_col c" and hd: "\<forall>x \<in> fst ` set c. k' < x"
    using Cons.prems by (auto simp: ordered_col_def col_keys_def e)
  show ?case
  proof (cases "k < k'")
    case True
    then show ?thesis using Cons.prems hd
      by (auto simp: ordered_col_def col_keys_def e)
  next
    case False
    show ?thesis
    proof (cases "k = k'")
      case True
      then show ?thesis using Cons.prems by (simp add: ordered_col_def col_keys_def e)
    next
      case neq: False
      have lt: "k' < k" using False neq by (simp add: not_less order_le_less)
      have "\<forall>x \<in> fst ` set (col_put k v c). k' < x"
        using hd lt by (simp add: set_col_put_keys)
      then show ?thesis using Cons.IH [OF tl] False neq
        by (simp add: ordered_col_def col_keys_def e)
    qed
  qed
qed

lemma ordered_col_filter: "ordered_col c \<Longrightarrow> ordered_col (filter P c)"
  unfolding ordered_col_def col_keys_def
  by (induction c) auto

lemma ordered_col_takeWhile: "ordered_col c \<Longrightarrow> ordered_col (takeWhile P c)"
  unfolding ordered_col_def col_keys_def
  by (induction c) (auto dest: set_takeWhileD)

lemma kept_range:
  assumes "\<not> ((block > sideload_cache_size \<and> k < block - sideload_cache_size) \<or> k > block)"
  shows "unat k \<le> unat block \<and> unat block \<le> unat k + 20"
proof -
  have le: "k \<le> block" using assms by (simp add: not_less)
  show ?thesis
  proof (cases "block > sideload_cache_size")
    case True
    then have ge: "block - 20 \<le> k" using assms by (simp add: sideload_cache_size_def not_less)
    have "(20 :: uint256_t) \<le> block" using True by (simp add: sideload_cache_size_def)
    then have "unat (block - 20) = unat block - 20" by (simp add: unat_sub)
    then show ?thesis using le ge by (simp add: word_le_nat_alt)
  next
    case False
    then have "unat block \<le> 20"
      by (simp add: sideload_cache_size_def not_less word_le_nat_alt)
    then show ?thesis using le by (simp add: word_le_nat_alt)
  qed
qed

lemma evicted_range:
  "((block > sideload_cache_size \<and> k < block - sideload_cache_size) \<or> k > block) \<longleftrightarrow>
   (unat k + 20 < unat block \<or> unat k > unat block)"
proof (cases "block > sideload_cache_size")
  case True
  then have "(20 :: uint256_t) \<le> block" by (simp add: sideload_cache_size_def)
  then have "unat (block - 20) = unat block - 20" and "20 \<le> unat block"
    by (simp_all add: unat_sub word_le_nat_alt)
  then show ?thesis using True
    by (auto simp: sideload_cache_size_def word_less_nat_alt)
next
  case False
  then have "unat block \<le> 20"
    by (simp add: sideload_cache_size_def not_less word_le_nat_alt)
  then show ?thesis using False by (auto simp: word_less_nat_alt)
qed

lemma within_window_cache_sideload: "within_window (cache_sideload block m c)"
  unfolding within_window_def cache_sideload_def evict_sideloads_filter
proof (intro ballI)
  fix e e'
  assume "e \<in> set (filter (\<lambda>e. \<not> ((block > sideload_cache_size \<and> fst e < block - sideload_cache_size) \<or> fst e > block)) (col_put block m c))"
    and "e' \<in> set (filter (\<lambda>e. \<not> ((block > sideload_cache_size \<and> fst e < block - sideload_cache_size) \<or> fst e > block)) (col_put block m c))"
  then have "unat (fst e) \<le> unat block \<and> unat block \<le> unat (fst e) + 20"
    and "unat (fst e') \<le> unat block \<and> unat block \<le> unat (fst e') + 20"
    using kept_range by auto
  then show "unat (fst e') \<le> unat (fst e) + 20" by simp
qed

lemma within_window_subset: "within_window c \<Longrightarrow> set c' \<subseteq> set c \<Longrightarrow> within_window c'"
  unfolding within_window_def by blast

lemma window_length:
  assumes ord: "ordered_col c" and win: "within_window c"
  shows "length c \<le> 21"
proof (cases c)
  case Nil
  then show ?thesis by simp
next
  case (Cons e0 rest)
  let ?ks = "map (unat \<circ> fst) c"
  have "distinct (col_keys c)"
    using ord unfolding ordered_col_def by (simp add: strict_sorted_iff)
  then have "distinct (map unat (col_keys c))"
    by (auto simp: distinct_map inj_on_def word_unat_eq_iff)
  then have dist: "distinct ?ks"
    by (simp add: col_keys_def)
  define lo where "lo = Min (set ?ks)"
  have ne: "set ?ks \<noteq> {}" using Cons by simp
  have lo_in: "lo \<in> set ?ks" unfolding lo_def using ne by (intro Min_in) simp_all
  then obtain e where e: "e \<in> set c" "lo = unat (fst e)" by auto
  have "set ?ks \<subseteq> {lo..lo + 20}"
  proof
    fix x assume "x \<in> set ?ks"
    then obtain e' where e': "e' \<in> set c" "x = unat (fst e')" by auto
    have "lo \<le> x" unfolding lo_def using \<open>x \<in> set ?ks\<close> by (intro Min_le) simp_all
    moreover have "x \<le> lo + 20" using win e e' by (simp add: within_window_def)
    ultimately show "x \<in> {lo..lo + 20}" by simp
  qed
  then have "card (set ?ks) \<le> card {lo..lo + 20}" by (intro card_mono) simp_all
  then show ?thesis using distinct_card [OF dist] by simp
qed

lemma reachable_inv: "sideload_cache_reachable c \<Longrightarrow> ordered_col c \<and> within_window c"
proof (induction rule: sideload_cache_reachable.induct)
  case initial
  then show ?case by (simp add: ordered_col_def col_keys_def within_window_def)
next
  case (saved c block m)
  then show ?case
    by (simp add: within_window_cache_sideload)
       (simp add: cache_sideload_def evict_sideloads_filter ordered_col_filter ordered_col_put)
next
  case (reorged c block_number)
  then show ?case
    by (auto simp: erase_from_lower_bound_def ordered_col_takeWhile
        intro: within_window_subset dest: set_takeWhileD)
qed

lemma set_takeWhile_ordered:
  "ordered_col c \<Longrightarrow> set (takeWhile (\<lambda>e. fst e < b) c) = {e \<in> set c. fst e < b}"
  unfolding ordered_col_def col_keys_def
  by (induction c) (auto simp: not_less)

text \<open>
  C8. A cache that the core can hold has at most 21 entries, and no entry is more than
  20 blocks behind another. A sideload save at block \<open>B\<close> keeps exactly the entries
  (the new one included) whose block number \<open>k\<close> has neither \<open>k + 20 < B\<close> (that is,
  \<open>k < B - 20\<close> over the integers) nor \<open>k > B\<close>. \<open>deleteSideloadsStartingAt b\<close>
  keeps exactly the cache entries below \<open>b\<close>.
\<close>

theorem sideload_cache_bounded:
  assumes "sideload_cache_reachable (sideload_cache core)"
  shows "length (sideload_cache core) \<le> 21 \<and>
         (\<forall>e \<in> set (sideload_cache core). \<forall>e' \<in> set (sideload_cache core).
            unat (fst e') \<le> unat (fst e) + 20) \<and>
         set (cache_sideload B m (sideload_cache core)) =
           {e \<in> set (col_put B m (sideload_cache core)).
              \<not> (unat (fst e) + 20 < unat B \<or> unat (fst e) > unat B)} \<and>
         length (cache_sideload B m (sideload_cache core)) \<le> 21 \<and>
         set (sideload_cache (fst (snd (deleteSideloadsStartingAt core tx b)))) =
           {e \<in> set (sideload_cache core). fst e < b}"
proof -
  let ?c = "sideload_cache core"
  have inv: "ordered_col ?c" "within_window ?c"
    using reachable_inv [OF assms] by simp_all
  have len: "length ?c \<le> 21" by (rule window_length [OF inv])
  have win: "\<forall>e \<in> set ?c. \<forall>e' \<in> set ?c. unat (fst e') \<le> unat (fst e) + 20"
    using inv(2) by (simp add: within_window_def)
  have sv: "set (cache_sideload B m ?c) =
           {e \<in> set (col_put B m ?c).
              \<not> (unat (fst e) + 20 < unat B \<or> unat (fst e) > unat B)}"
    unfolding cache_sideload_def evict_sideloads_filter evicted_range by auto
  have "sideload_cache_reachable (cache_sideload B m ?c)"
    using assms by (rule sideload_cache_reachable.saved)
  then have len': "length (cache_sideload B m ?c) \<le> 21"
    using reachable_inv window_length by blast
  have "set (takeWhile (\<lambda>e. fst e < b) ?c) = {e \<in> set ?c. fst e < b}"
    using inv(1) by (rule set_takeWhile_ordered)
  then have er: "set (sideload_cache (fst (snd (deleteSideloadsStartingAt core tx b)))) =
           {e \<in> set ?c. fst e < b}"
    by (simp add: deleteSideloadsStartingAt_def Let_def erase_from_lower_bound_def)
  show ?thesis using len win sv len' er by blast
qed

theorem sideload_cache_bounded_witness:
  "sideload_cache_reachable (sideload_cache ex_core) \<and>
   sideload_cache ex_core = [(5, ex_machine), (6, ex_machine)] \<and>
   length (sideload_cache ex_core) \<le> 21 \<and>
   cache_sideload 26 ex_machine (sideload_cache ex_core) = [(6, ex_machine), (26, ex_machine)] \<and>
   length (cache_sideload 26 ex_machine (sideload_cache ex_core)) \<le> 21 \<and>
   sideload_cache (fst (snd (deleteSideloadsStartingAt ex_core ex_tx 6))) = [(5, ex_machine)]"
proof -
  have r: "sideload_cache_reachable (sideload_cache ex_core)"
    by (simp add: ex_core_def sideload_cache_reachable.intros)
  have c: "sideload_cache ex_core = [(5, ex_machine), (6, ex_machine)]"
    by (simp add: ex_core_def cache_sideload_def sideload_cache_size_def)
  show ?thesis
    using sideload_cache_bounded [OF r, of 26 ex_machine ex_tx 6] r
    by (simp add: c cache_sideload_def sideload_cache_size_def deleteSideloadsStartingAt_def
        Let_def erase_from_lower_bound_def)
qed

subsection \<open>Reading messages\<close>

lemmas message_simps =
  getMessagesImpl_def consistency_check_def emit_item_def after_loop_def
  deserializeSequencerBatchItem_def assert_aborts_def

lemma ex_R_simps:
  "NDEBUG ex_R" "\<not> NDEBUG ex_R_debug"
  "seq_batch_lower_bound_bytes ex_R x = ex_heap_bytes"
  "seq_batch_lower_bound_bytes ex_R_debug x = ex_heap_bytes"
  "next_item_lower_bound_bytes ex_R x = ex_heap_bytes"
  "next_item_lower_bound_bytes ex_R_debug x = ex_heap_bytes"
  by (simp_all add: ex_R_def ex_R_debug_def)

lemma ex_seek_heap_bytes:
  "Seek (sequencer_batch_item_col ex_tx) ex_heap_bytes = []"
  "Seek (sequencer_batch_item_col ex_tx_rewritten) ex_heap_bytes = []"
  by (simp_all add: Seek_def ex_tx_def ex_tx_rewritten_def ex_heap_bytes_def)

lemma ex_tx_rewritten_healthy: "io_status ex_tx_rewritten = OK"
  by (simp add: ex_tx_rewritten_def ex_tx_def)

lemma getMessagesImpl_nothing_read:
  assumes "io_status tx = OK"
    and "Seek (sequencer_batch_item_col tx)
           (seq_batch_lower_bound_bytes R (if 0 < index then index - 1 else index)) = []"
  shows "getMessagesImpl R tx index count start_acc =
           Inr (if 0 < index then NotFound else OK, [])"
  using assms by (simp add: getMessagesImpl_def Let_def Valid_entries_def after_loop_def ok_def)

lemma ex_getMessagesImpl:
  "getMessagesImpl ex_R ex_tx index count start_acc =
     Inr (if 0 < index then NotFound else OK, [])"
  "getMessagesImpl ex_R_debug ex_tx index count start_acc =
     Inr (if 0 < index then NotFound else OK, [])"
  "getMessagesImpl ex_R ex_tx_rewritten index count start_acc =
     Inr (if 0 < index then NotFound else OK, [])"
  by (rule getMessagesImpl_nothing_read, simp add: ex_tx_healthy ex_tx_rewritten_healthy,
      simp add: ex_R_simps ex_seek_heap_bytes)+

lemma getMessagesImpl_checks_item_at_key_read:
  assumes healthy: "io_status tx = OK" and pos: "0 < index"
    and item: "Seek (sequencer_batch_item_col tx) (seq_batch_lower_bound_bytes R (index - 1)) =
                 e # rest"
    and differs: "accumulator (deserializeSequencerBatchItem (fst e) (snd e)) \<noteq> a"
  shows "getMessagesImpl R tx index count (Some a) = Inr (NotFound, [])"
  using assms
  by (simp add: getMessagesImpl_def Let_def Valid_entries_def ok_def consistency_check_def)

text \<open>
  C5. Reading from \<open>index > 0\<close> with a start accumulator does not compare it with the
  first batch item at or after sequence number \<open>index - 1\<close>: \<open>index - 1\<close> is marshalled,
  but the seek is at the key read behind the freed buffer, and the item compared is the
  first at or after that key. On the small store the first item at or after sequence
  number 0 is item 0, with accumulator 1000; the key read is above every stored key, the
  iterator visits no item, and reading from index 1 with start accumulator 1000 returns
  not-found with no messages, in both builds, where the check is to pass.
\<close>

theorem getMessagesImpl_start_acc_check_misses:
  "Seek (sequencer_batch_item_col ex_tx) (1 - 1) =
     [(0, (0, 1000, Some [7])), (2, (2, 1002, None)), (3, (2, 1003, Some [10]))] \<and>
   seq_batch_lower_bound_bytes ex_R (1 - 1) = ex_heap_bytes \<and>
   Seek (sequencer_batch_item_col ex_tx) ex_heap_bytes = [] \<and>
   getMessagesImpl ex_R ex_tx 1 2 (Some 1000) = Inr (NotFound, []) \<and>
   getMessagesImpl ex_R_debug ex_tx 1 2 (Some 1000) = Inr (NotFound, [])"
  by (simp add: ex_getMessagesImpl ex_R_simps ex_seek_heap_bytes)
     (simp add: Seek_def ex_tx_def)

lemma foldl_push_back: "foldl (\<lambda>v m. v @ [f m]) v0 ms = v0 @ map f ms"
  by (induction ms arbitrary: v0) simp_all

lemma getMessages_padding:
  "getMessages R tx index count =
     (case getMessagesImpl R tx index count None of
        Inl err \<Rightarrow> Inl err
      | Inr result \<Rightarrow>
          if fst result = OK
          then Inr (OK, replicate (length (snd result)) [] @ map raw_message (snd result))
          else Inr (fst result, []))"
  by (simp add: getMessages_def foldl_push_back ok_def split: sum.splits)

lemma readNextMessages_padding:
  "readNextMessages R tx fully_processed_inbox' count =
     (case getMessagesImpl R tx (inbox_count fully_processed_inbox') (of_nat count)
             (Some (inbox_accumulator fully_processed_inbox')) of
        Inl err \<Rightarrow> Inl err
      | Inr raw_result \<Rightarrow>
          if fst raw_result = OK
          then Inr (OK, replicate count default_MachineMessage @
                        map (\<lambda>raw. MachineMessage (extractInboxMessage (raw_message raw))
                                      (raw_accumulator raw)) (snd raw_result))
          else Inr (fst raw_result, replicate count default_MachineMessage))"
  by (simp add: readNextMessages_def Let_def foldl_push_back ok_def split: sum.splits)

text \<open>
  C2. \<open>getMessages\<close> and \<open>readNextMessages\<close> do not return the stored messages. On the
  small store four message entries are inserted, and messages 0 and 1 are \<open>[7]\<close> and
  \<open>[8]\<close>. The seek of \<open>getMessagesImpl\<close> is at the stale key and visits no batch item,
  so \<open>getMessages 0 2\<close> returns OK and no message. \<open>readNextMessages\<close> builds its vector
  with \<open>count\<close> default elements before it appends what is read: from inbox position 0
  it returns OK and two default messages, and from position 1 not-found with the two
  default messages. (\<open>getMessages\<close> likewise puts one empty element per message read
  before the messages: \<open>getMessages_padding\<close>.)
\<close>

theorem getMessages_returns_nothing_read:
  "messageEntryInsertedCountImpl ex_tx = (OK, 4) \<and>
   getMessagesImpl ex_R ex_tx 0 2 None = Inr (OK, []) \<and>
   getMessages ex_R ex_tx 0 2 = Inr (OK, []) \<and>
   readNextMessages ex_R ex_tx \<lparr>inbox_count = 0, inbox_accumulator = 0\<rparr> 2 =
     Inr (OK, [default_MachineMessage, default_MachineMessage]) \<and>
   readNextMessages ex_R ex_tx \<lparr>inbox_count = 1, inbox_accumulator = 1000\<rparr> 2 =
     Inr (NotFound, [default_MachineMessage, default_MachineMessage])"
  by (simp add: getMessages_padding readNextMessages_padding ex_getMessagesImpl
      numeral_2_eq_2)
     (simp add: messageEntryInsertedCountImpl_def stateGetUint256_def ex_tx_def ok_def
        state_keys)

subsection \<open>Logs cursors and reorganisation\<close>

lemma save_deleted_logs_eq:
  assumes healthy: "io_status tx = OK"
    and cnt: "state_col tx log_inserted_key = Some n"
    and fits: "unat n < 2 ^ 64"
    and stored: "logs_stored E tx n f"
    and pend: "current \<le> pending_total_count c" "pending_total_count c \<le> n"
  shows "save_deleted_logs E tx c current target =
           (OK,
            c\<lparr>deleted_data := deleted_data c @
                   rev (map f [unat target..<unat (pending_total_count c)]),
               pending_total_count := min (pending_total_count c) target\<rparr>,
            if current > target
            then tx\<lparr>state_col := (state_col tx)(current_total_key c \<mapsto> target)\<rparr>
            else tx)"
proof (cases "target < pending_total_count c")
  case True
  let ?p = "pending_total_count c"
  have le: "target \<le> ?p" using True by simp
  have sub: "unat (?p - target) = unat ?p - unat target"
    using le by (rule unat_sub)
  have lt: "unat target < unat ?p" using True by (simp add: word_less_nat_alt)
  have pn: "unat ?p \<le> unat n" using pend(2) by (simp add: word_le_nat_alt)
  have h: "?p - target \<noteq> 0 \<and> target < n \<and> unat target + unat (?p - target) < 2 ^ 256"
  proof (intro conjI)
    show "?p - target \<noteq> 0" using True by simp
    show "target < n" using True pend(2) by simp
    have "unat target + unat (?p - target) = unat ?p" using sub lt by simp
    also have "\<dots> < 2 ^ 256" using unsigned_less [of ?p] by simp
    finally show "unat target + unat (?p - target) < 2 ^ 256" .
  qed
  have "min (unat (?p - target)) (unat n - unat target) = unat ?p - unat target"
    using sub pn by simp
  then have logs: "getLogsNoLock E tx target (?p - target) =
                     (OK, map f [unat target..<unat ?p])"
    using getLogsNoLock_range [OF healthy cnt fits stored h] lt by simp
  have mn: "min ?p target = target" using le by (simp add: min_def)
  show ?thesis
    using True logs healthy mn
    by (simp add: save_deleted_logs_def Let_def statePut_def ok_def)
next
  case False
  have le: "pending_total_count c \<le> target" using False by (simp add: not_less)
  then have nolog: "[unat target..<unat (pending_total_count c)] = []"
    by (simp add: word_le_nat_alt)
  have mn: "min (pending_total_count c) target = pending_total_count c"
    using le by (simp add: min_def)
  have "\<not> current > target" using le pend(1) by (simp add: not_less)
  then show ?thesis
    using False nolog mn by (simp add: save_deleted_logs_def)
qed

lemma truncate_data_eq:
  assumes "unat current + length (data c) < 2 ^ 64"
  shows "truncate_data c current target =
           c\<lparr>data := take (unat target - unat current) (data c)\<rparr>"
proof (cases "data c = []")
  case True
  then show ?thesis by (simp add: truncate_data_def)
next
  case ne: False
  show ?thesis
  proof (cases "current \<ge> target")
    case True
    then have "unat target - unat current = 0" by (simp add: word_le_nat_alt)
    then show ?thesis using ne True by (simp add: truncate_data_def)
  next
    case False
    then have lt: "current < target" by (simp add: not_le)
    have len: "unat (of_nat (length (data c)) :: uint256_t) = length (data c)"
      using assms by (simp add: unat_of_nat)
    have "unat current + unat (of_nat (length (data c)) :: uint256_t) < 2 ^ LENGTH(256)"
      using assms len by simp
    then have sum: "unat (current + of_nat (length (data c))) = unat current + length (data c)"
      using len unat_add_lem [of current "of_nat (length (data c))"] by simp
    have sub: "unat (target - current) = unat target - unat current"
      using lt by (intro unat_sub less_imp_le)
    show ?thesis
    proof (cases "current + of_nat (length (data c)) > target")
      case True
      then have "unat target - unat current < 2 ^ 64"
        using sum assms by (simp add: word_less_nat_alt)
      then have "narrow_cast_size_t (target - current) = unat target - unat current"
        using sub by (simp add: narrow_cast_size_t_def)
      then show ?thesis using ne False True by (simp add: truncate_data_def)
    next
      case nt: False
      then have "length (data c) \<le> unat target - unat current"
        using sum by (simp add: word_less_nat_alt)
      then show ?thesis using ne False nt by (simp add: truncate_data_def)
    qed
  qed
qed

text \<open>
  C7. For a cursor of a healthy store whose logs below \<open>log_inserted_count\<close> are stored,
  with \<open>current_total_count \<le> pending_total_count \<le> log_inserted_count\<close> and queued data
  that ends at or below \<open>log_inserted_count\<close>: \<open>handleLogsCursorReorg\<close> returns OK; when
  \<open>target_count < pending_total_count\<close> it appends the logs of
  \<open>[target_count, pending_total_count)\<close> to \<open>deleted_data\<close> newest first and sets
  \<open>pending_total_count\<close> to \<open>target_count\<close> (otherwise it leaves both); the persisted
  \<open>current_total_count\<close> becomes the smaller of itself and \<open>target_count\<close>; the queued
  data keeps its logs below \<open>target_count\<close>; and a READY cursor whose data and
  \<open>deleted_data\<close> are then both empty becomes REQUESTED.
\<close>

theorem handleLogsCursorReorg_effect:
  assumes idx: "cursor_index < length (logs_cursors core)"
    and c: "c = logs_cursors core ! cursor_index"
    and healthy: "io_status (data_storage core) = OK"
    and cur: "state_col (data_storage core) (current_total_key c) = Some current"
    and cnt: "state_col (data_storage core) log_inserted_key = Some n"
    and fits: "unat n < 2 ^ 64"
    and stored: "logs_stored E (data_storage core) n f"
    and pend: "current \<le> pending_total_count c" "pending_total_count c \<le> n"
    and queued: "unat current + length (data c) \<le> unat n"
  shows "\<exists>core'. handleLogsCursorReorg E core cursor_index target = Inr (OK, core') \<and>
           (target < pending_total_count c \<longrightarrow>
              deleted_data (logs_cursors core' ! cursor_index) =
                deleted_data c @ rev (map f [unat target..<unat (pending_total_count c)]) \<and>
              pending_total_count (logs_cursors core' ! cursor_index) = target) \<and>
           (pending_total_count c \<le> target \<longrightarrow>
              deleted_data (logs_cursors core' ! cursor_index) = deleted_data c \<and>
              pending_total_count (logs_cursors core' ! cursor_index) =
                pending_total_count c) \<and>
           state_col (data_storage core') (current_total_key c) = Some (min current target) \<and>
           data (logs_cursors core' ! cursor_index) =
             take (unat target - unat current) (data c) \<and>
           cursor_status (logs_cursors core' ! cursor_index) =
             (if cursor_status c = READY \<and>
                 data (logs_cursors core' ! cursor_index) = [] \<and>
                 deleted_data (logs_cursors core' ! cursor_index) = []
              then REQUESTED else cursor_status c)"
proof -
  let ?tx = "data_storage core"
  let ?p = "pending_total_count c"
  define c2 where "c2 = c\<lparr>deleted_data := deleted_data c @ rev (map f [unat target..<unat ?p]),
                             pending_total_count := min ?p target\<rparr>"
  define tx' where "tx' = (if current > target
                           then ?tx\<lparr>state_col := (state_col ?tx)(current_total_key c \<mapsto> target)\<rparr>
                           else ?tx)"
  define c3 where "c3 = downgrade_ready (c2\<lparr>data := take (unat target - unat current) (data c)\<rparr>)"
  have rd: "logsCursorGetCurrentTotalCount ?tx (logs_cursors core) cursor_index = (OK, current)"
    using healthy cur c
    by (simp add: logsCursorGetCurrentTotalCount_def stateGetUint256_def ok_def)
  have nomax: "\<not> current > ?p" using pend(1) by (simp add: not_less)
  have saved: "save_deleted_logs E ?tx c current target = (OK, c2, tx')"
    unfolding c2_def tx'_def
    by (rule save_deleted_logs_eq [OF healthy cnt fits stored pend])
  have "unat current + length (data c2) < 2 ^ 64"
    using queued fits by (simp add: c2_def)
  then have trunc: "truncate_data c2 current target =
                      c2\<lparr>data := take (unat target - unat current) (data c)\<rparr>"
    using truncate_data_eq [of current c2 target] by (simp add: c2_def)
  have io': "io_status tx' = OK" using healthy by (simp add: tx'_def)
  have res: "handleLogsCursorReorg E core cursor_index target =
               Inr (OK, core\<lparr>logs_cursors := (logs_cursors core)[cursor_index := c3],
                             data_storage := tx'\<rparr>)"
    using idx rd nomax saved trunc io' c
    by (simp add: handleLogsCursorReorg_def Let_def ok_def commit_def c3_def)
  have nth: "logs_cursors (core\<lparr>logs_cursors := (logs_cursors core)[cursor_index := c3],
                               data_storage := tx'\<rparr>) ! cursor_index = c3"
    using idx by simp
  have st: "state_col tx' (current_total_key c) = Some (min current target)"
    using cur by (auto simp: tx'_def min_def)
  have del_lt: "deleted_data c3 = deleted_data c @ rev (map f [unat target..<unat ?p])"
    by (simp add: c3_def c2_def downgrade_ready_def)
  have pen: "pending_total_count c3 = min ?p target"
    by (simp add: c3_def c2_def downgrade_ready_def)
  have dat: "data c3 = take (unat target - unat current) (data c)"
    by (simp add: c3_def c2_def downgrade_ready_def)
  have stat: "cursor_status c3 =
                (if cursor_status c = READY \<and> data c3 = [] \<and> deleted_data c3 = []
                 then REQUESTED else cursor_status c)"
    by (simp add: c3_def c2_def downgrade_ready_def)
  have nolog: "[unat target..<unat ?p] = []" if "?p \<le> target"
    using that by (simp add: word_le_nat_alt)
  have pen_lt: "pending_total_count c3 = target" if "target < ?p"
    using that pen by (auto simp: min_def)
  have pen_ge: "pending_total_count c3 = ?p" if "?p \<le> target"
    using that pen by (simp add: min_def)
  have del_ge: "deleted_data c3 = deleted_data c" if "?p \<le> target"
    using that del_lt nolog by simp
  show ?thesis
    unfolding res
  proof (intro exI conjI impI)
    show "Inr (OK, core\<lparr>logs_cursors := (logs_cursors core)[cursor_index := c3],
                        data_storage := tx'\<rparr>) =
          Inr (OK, core\<lparr>logs_cursors := (logs_cursors core)[cursor_index := c3],
                        data_storage := tx'\<rparr>)" ..
  qed (simp_all only: nth, simp_all add: del_lt pen_lt pen_ge dat stat st word_le_nat_alt)
qed

theorem handleLogsCursorReorg_effect_witness:
  "(0 :: nat) < length (logs_cursors ex_core) \<and>
   io_status (data_storage ex_core) = OK \<and>
   state_col (data_storage ex_core) (current_total_key ex_cursor) = Some 1 \<and>
   state_col (data_storage ex_core) log_inserted_key = Some 3 \<and>
   logs_stored ex_E (data_storage ex_core) 3 (\<lambda>i. 100 + i) \<and>
   (1 :: uint256_t) \<le> pending_total_count ex_cursor \<and> pending_total_count ex_cursor \<le> 3 \<and>
   (2 :: uint256_t) < pending_total_count ex_cursor \<and>
   (\<exists>core'. handleLogsCursorReorg ex_E ex_core 0 2 = Inr (OK, core') \<and>
      deleted_data (logs_cursors core' ! 0) = [102] \<and>
      pending_total_count (logs_cursors core' ! 0) = 2 \<and>
      state_col (data_storage core') (current_total_key ex_cursor) = Some 1 \<and>
      cursor_status (logs_cursors core' ! 0) = READY) \<and>
   (\<exists>core'. handleLogsCursorReorg ex_E ex_core 0 3 = Inr (OK, core') \<and>
      deleted_data (logs_cursors core' ! 0) = [] \<and>
      cursor_status (logs_cursors core' ! 0) = REQUESTED)"
proof -
  have idx: "(0 :: nat) < length (logs_cursors ex_core)" by (simp add: ex_core_def)
  have c: "ex_cursor = logs_cursors ex_core ! 0" by (simp add: ex_core_def)
  have healthy: "io_status (data_storage ex_core) = OK" by (simp add: ex_core_def ex_tx_def)
  have cur: "state_col (data_storage ex_core) (current_total_key ex_cursor) = Some 1"
    by (simp add: ex_core_def ex_tx_def ex_cursor_def state_keys)
  have cnt: "state_col (data_storage ex_core) log_inserted_key = Some 3"
    by (simp add: ex_core_def ex_tx_def state_keys)
  have fits: "unat (3 :: uint256_t) < 2 ^ 64" by simp
  have stored: "logs_stored ex_E (data_storage ex_core) 3 (\<lambda>i. 100 + i)"
  proof -
    have u: "unat (3 :: uint256_t) = Suc (Suc (Suc 0))" by simp
    show ?thesis
      unfolding logs_stored_def u
      by (simp add: ex_core_def ex_tx_def ex_E_def less_Suc_eq imp_disjL all_conj_distrib)
  qed
  have pend: "(1 :: uint256_t) \<le> pending_total_count ex_cursor"
    "pending_total_count ex_cursor \<le> 3" "(2 :: uint256_t) < pending_total_count ex_cursor"
    by (simp_all add: ex_cursor_def)
  have queued: "unat (1 :: uint256_t) + length (data ex_cursor) \<le> unat (3 :: uint256_t)"
    by (simp add: ex_cursor_def)
  have r2: "[unat (2 :: uint256_t)..<unat (pending_total_count ex_cursor)] = [2]"
    by (simp add: ex_cursor_def upt_rec)
  have r3: "[unat (3 :: uint256_t)..<unat (pending_total_count ex_cursor)] = []"
    by (simp add: ex_cursor_def)
  show ?thesis
    using handleLogsCursorReorg_effect [OF idx c healthy cur cnt fits stored pend(1,2) queued,
        of 2]
      handleLogsCursorReorg_effect [OF idx c healthy cur cnt fits stored pend(1,2) queued,
        of 3]
      idx healthy cur cnt stored pend
    by (simp add: r2 r3) (auto simp: ex_cursor_def)
qed

subsection \<open>Saving a checkpoint of an invalid machine\<close>





subsection \<open>Advancing an execution cursor\<close>

lemma ex_closest:
  "getClosestExecutionMachine ex_tx 30 = Inr (ex_checkpoint 20 0 0 0 0 0 None)"
  "getClosestExecutionMachine ex_tx 60 = Inr (ex_checkpoint 24 50 1 1000 1 1 (Some 5))"
  by (simp_all add: getClosestExecutionMachine_def getCheckpointUsingGas_def
      ex_tx_def Valid_entries_def SeekForPrev_def ok_def word_le_nat_alt)

lemma ex_resolve:
  "resolveExecutionCursorMachine ex_E ex_tx
     (KeysOnly (ex_checkpoint 20 0 0 0 0 0 None)) = Inr ex_machine_0"
  "resolveExecutionCursorMachine ex_E ex_tx
     (KeysOnly (ex_checkpoint 24 50 1 1000 1 1 (Some 5))) = Inr ex_machine_50"
  by (simp_all add: resolveExecutionCursorMachine_def getMachineUsingStateKeys_def
      ex_tx_def ex_E_def ex_checkpoint_def ex_machine_50_def ex_machine_0_def)

lemma ex_read:
  "readNextMessages ex_R ex_tx \<lparr>inbox_count = 0, inbox_accumulator = 0\<rparr> 10 =
     Inr (OK, replicate 10 default_MachineMessage)"
  "readNextMessages ex_R_debug ex_tx \<lparr>inbox_count = 0, inbox_accumulator = 0\<rparr> 10 =
     Inr (OK, replicate 10 default_MachineMessage)"
  "readNextMessages ex_R ex_tx \<lparr>inbox_count = 1, inbox_accumulator = 1000\<rparr> 10 =
     Inr (NotFound, replicate 10 default_MachineMessage)"
  by (simp_all add: readNextMessages_padding ex_getMessagesImpl)

lemma ex_machine_simps:
  "arb_gas_used (output_f ex_machine_0) = 0"
  "fully_processed_inbox (output_f ex_machine_0) =
     \<lparr>inbox_count = 0, inbox_accumulator = 0\<rparr>"
  "arb_gas_used (output_f ex_machine_50) = 50"
  "fully_processed_inbox (output_f ex_machine_50) =
     \<lparr>inbox_count = 1, inbox_accumulator = 1000\<rparr>"
  "nextGasCost ex_E m = 1"
  by (simp_all add: ex_machine_50_def ex_machine_0_def ex_E_def)

lemma ex_inner:
  "advance_inner_loop ex_R ex_E ex_tx 30 False 10
     (KeysOnly (ex_checkpoint 20 0 0 0 0 0 None)) =
     Some (Inr (HandleReorg (LiveMachine ex_machine_0)))"
  "advance_inner_loop ex_R_debug ex_E ex_tx 30 False 10
     (KeysOnly (ex_checkpoint 20 0 0 0 0 0 None)) =
     Some (Inr (HandleReorg (LiveMachine ex_machine_0)))"
  "advance_inner_loop ex_R ex_E ex_tx 60 False 10
     (KeysOnly (ex_checkpoint 24 50 1 1000 1 1 (Some 5))) =
     Some (Inr (Returns NotFound (LiveMachine ex_machine_50)))"
  by (subst advance_inner_loop.simps,
      simp add: ex_resolve ex_read ex_machine_simps IsNotFound_def ok_def
        word_less_nat_alt)+

lemma advance_inner_loop_one_pass:
  "advance_inner_loop R E tx total_gas_used go_over_gas message_group_size cursor =
     (case resolveExecutionCursorMachine E tx cursor of
        Inl err \<Rightarrow> Some (Inl err)
      | Inr mach \<Rightarrow>
          if arb_gas_used (output_f mach) = total_gas_used
          then Some (Inr (Advanced (LiveMachine mach)))
          else if go_over_gas \<and> arb_gas_used (output_f mach) > total_gas_used
          then Some (Inr (Advanced (LiveMachine mach)))
          else if \<not> go_over_gas \<and>
                  arb_gas_used (output_f mach) + nextGasCost E mach > total_gas_used
          then Some (Inr (Advanced (LiveMachine mach)))
          else
            case readNextMessages R tx (fully_processed_inbox (output_f mach))
                   message_group_size of
              Inl err \<Rightarrow> Some (Inl err)
            | Inr get_messages_result \<Rightarrow>
                if fst get_messages_result = NotFound
                then Some (Inr (Returns NotFound (LiveMachine mach)))
                else Some (Inr (HandleReorg (LiveMachine mach))))"
  by (subst advance_inner_loop.simps)
     (simp add: IsNotFound_def ok_def split: sum.splits)

text \<open>
  C1. The advance is not retried exactly when the read of the next messages returns
  not-found: the test after the read is \<^verbatim>\<open>if (!get_messages_result.status.IsNotFound())\<close>,
  so one pass of the inner loop sets \<open>handle_reorg\<close> for every status of the read other
  than not-found, OK included, returns a not-found read at once, and never runs the
  machine (\<open>advance_inner_loop_one_pass\<close>). On the small store, from the checkpoint at
  gas 0 the read returns OK, and with assertions compiled out \<open>getExecutionCursor\<close> to
  gas 30 rebuilds from that checkpoint 16 times and returns Busy; with assertions
  compiled in, the second pass aborts. From the checkpoint at gas 50 the read returns
  not-found, and \<open>getExecutionCursor\<close> to gas 60 returns not-found at once, with no
  rebuild.
\<close>

theorem advanceExecutionCursorImpl_retries_on_OK:
  "readNextMessages ex_R ex_tx (fully_processed_inbox (output_f ex_machine_0)) 10 =
     Inr (OK, replicate 10 default_MachineMessage) \<and>
   getExecutionCursor ex_R ex_E ex_tx 30 =
     Some (Inr (Busy, Some (KeysOnly (ex_checkpoint 20 0 0 0 0 0 None)))) \<and>
   getExecutionCursor ex_R_debug ex_E ex_tx 30 = Some (Inl AssertionFailure) \<and>
   readNextMessages ex_R ex_tx (fully_processed_inbox (output_f ex_machine_50)) 10 =
     Inr (NotFound, replicate 10 default_MachineMessage) \<and>
   getExecutionCursor ex_R ex_E ex_tx 60 =
     Some (Inr (NotFound, Some (LiveMachine ex_machine_50)))"
proof -
  have busy: "getExecutionCursor ex_R ex_E ex_tx 30 =
     Some (Inr (Busy, Some (KeysOnly (ex_checkpoint 20 0 0 0 0 0 None))))"
    by (simp add: getExecutionCursor_def advanceExecutionCursorImpl_def ex_closest
        advance_reorg_loop.simps ex_inner assert_aborts_def ex_R_simps)
  have abort: "getExecutionCursor ex_R_debug ex_E ex_tx 30 = Some (Inl AssertionFailure)"
    by (simp add: getExecutionCursor_def advanceExecutionCursorImpl_def ex_closest
        advance_reorg_loop.simps ex_inner assert_aborts_def ex_R_simps)
  have notfound: "getExecutionCursor ex_R ex_E ex_tx 60 =
     Some (Inr (NotFound, Some (LiveMachine ex_machine_50)))"
    by (simp add: getExecutionCursor_def advanceExecutionCursorImpl_def ex_closest
        advance_reorg_loop.simps ex_inner assert_aborts_def ex_R_simps)
  show ?thesis
    using busy abort notfound ex_read by (simp only: ex_machine_simps simp_thms)
qed

subsection \<open>Reorganisation to a checkpoint\<close>

lemma same_but_state_refl: "same_but_state tx tx"
  by (simp add: same_but_state_def)

lemma same_but_state_trans:
  "same_but_state a b \<Longrightarrow> same_but_state b c \<Longrightarrow> same_but_state a c"
  by (simp add: same_but_state_def)

lemma statePut_same: "same_but_state (snd (statePut tx k v)) tx"
  by (simp add: statePut_def same_but_state_def)

lemma save_deleted_logs_same:
  "same_but_state (snd (snd (save_deleted_logs E tx c current lc))) tx"
  using statePut_same [of tx "current_total_key c" lc]
  by (simp add: save_deleted_logs_def Let_def same_but_state_refl)

lemma handleLogsCursorReorg_same:
  assumes "handleLogsCursorReorg E core i lc = Inr (st, core')"
  shows "same_but_state (data_storage core') (data_storage core) \<and>
         sideload_cache core' = sideload_cache core \<and>
         length (logs_cursors core') = length (logs_cursors core)"
  using assms save_deleted_logs_same [of E "data_storage core"]
  by (auto simp: handleLogsCursorReorg_def Let_def same_but_state_refl split: if_splits)

lemma handle_all_cursors_same:
  "handle_all_cursors E core is lc = Inr (st, core') \<Longrightarrow>
   same_but_state (data_storage core') (data_storage core) \<and>
   sideload_cache core' = sideload_cache core"
proof (induction "is" arbitrary: core)
  case Nil
  then show ?case by (simp add: same_but_state_refl)
next
  case (Cons i rest)
  show ?case
  proof (cases "handleLogsCursorReorg E core i lc")
    case (Inl err)
    then show ?thesis using Cons.prems by simp
  next
    case (Inr res)
    obtain s1 core1 where res: "res = (s1, core1)" by (cases res)
    note one = handleLogsCursorReorg_same [OF Inr [unfolded res]]
    show ?thesis
    proof (cases "ok s1")
      case True
      then have "handle_all_cursors E core1 rest lc = Inr (st, core')"
        using Cons.prems Inr res by simp
      from Cons.IH [OF this] one show ?thesis
        by (auto intro: same_but_state_trans)
    next
      case False
      then have "core' = core1" using Cons.prems Inr res by simp
      then show ?thesis using one by simp
    qed
  qed
qed

lemma reorg_checkpoints_frame:
  "reorg_checkpoints R E n use_latest tx entries = Inr (Inr (C, tx1)) \<Longrightarrow>
   io_status tx1 = io_status tx \<and> state_col tx1 = state_col tx \<and>
   log_col tx1 = log_col tx \<and> send_col tx1 = send_col tx"
proof (induction entries arbitrary: tx)
  case Nil
  then show ?case by simp
next
  case (Cons e before)
  let ?tx' = "checkpointDelete (deleteMachineState E tx (snd e)) (fst e)"
  have fr: "io_status ?tx' = io_status tx \<and> state_col ?tx' = state_col tx \<and>
            log_col ?tx' = log_col tx \<and> send_col ?tx' = send_col tx"
    by (simp add: checkpointDelete_def deleteMachineState_def)
  show ?case
  proof (cases "(getTotalMessagesRead (snd e) = 0 \<or> use_latest \<or>
                 n \<ge> getTotalMessagesRead (snd e) - 1) \<and>
                isValid R tx (fully_processed_inbox (output_f (snd e)))")
    case True
    then show ?thesis using Cons.prems by simp
  next
    case False
    then have "reorg_checkpoints R E n use_latest ?tx' before = Inr (Inr (C, tx1))"
      using Cons.prems by (simp add: Let_def split: if_splits)
    from Cons.IH [OF this] fr show ?thesis by simp
  qed
qed

lemma fold_sideloadDelete_frame:
  "io_status (fold (\<lambda>e t. sideloadDelete t (fst e)) es tx) = io_status tx \<and>
   state_col (fold (\<lambda>e t. sideloadDelete t (fst e)) es tx) = state_col tx \<and>
   log_col (fold (\<lambda>e t. sideloadDelete t (fst e)) es tx) = log_col tx \<and>
   send_col (fold (\<lambda>e t. sideloadDelete t (fst e)) es tx) = send_col tx \<and>
   value_store (fold (\<lambda>e t. sideloadDelete t (fst e)) es tx) = value_store tx"
  by (induction es arbitrary: tx) (simp_all add: sideloadDelete_def)

lemma fold_deleteValue:
  "fold (\<lambda>e t. t\<lparr>value_store := deleteValue E (snd e) (value_store t)\<rparr>) es tx =
   tx\<lparr>value_store := fold (\<lambda>e vs. deleteValue E (snd e) vs) es (value_store tx)\<rparr>"
  by (induction es arbitrary: tx) simp_all

lemma Seek_ordered: "ordered_col col \<Longrightarrow> Seek col k = filter (\<lambda>e. k \<le> fst e) col"
  unfolding ordered_col_def col_keys_def Seek_def
proof (induction col)
  case Nil
  then show ?case by simp
next
  case (Cons e col)
  show ?case
  proof (cases "fst e < k")
    case True
    then show ?thesis using Cons by (simp add: not_le)
  next
    case False
    then have "\<forall>x \<in> set col. k \<le> fst x" using Cons.prems by (auto simp: not_less)
    then have "filter (\<lambda>e. k \<le> fst e) col = col" by (simp add: filter_id_conv)
    then show ?thesis using False by (simp add: not_less)
  qed
qed

lemma fold_sideloadDelete_shape:
  "\<exists>sc. fold (\<lambda>e t. sideloadDelete t (fst e)) es tx = tx\<lparr>sideload_col := sc\<rparr>"
proof (induction es arbitrary: tx)
  case Nil
  show ?case by (rule exI [of _ "sideload_col tx"]) simp
next
  case (Cons e es)
  obtain sc' where one: "sideloadDelete tx (fst e) = tx\<lparr>sideload_col := sc'\<rparr>"
  proof (cases "ok (io_status tx)")
    case True
    then show ?thesis using that by (simp add: sideloadDelete_def)
  next
    case False
    then have "sideloadDelete tx (fst e) = tx\<lparr>sideload_col := sideload_col tx\<rparr>"
      by (simp add: sideloadDelete_def)
    then show ?thesis using that by blast
  qed
  obtain sc where "fold (\<lambda>e t. sideloadDelete t (fst e)) es (tx\<lparr>sideload_col := sc'\<rparr>) =
                     tx\<lparr>sideload_col := sc'\<rparr>\<lparr>sideload_col := sc\<rparr>"
    using Cons.IH [of "tx\<lparr>sideload_col := sc'\<rparr>"] by blast
  then show ?case using one by (intro exI [of _ sc]) simp
qed

lemma restore_checkpoint_success:
  assumes "restore_checkpoint E core C = Inr (OK, core')"
  shows "io_status (data_storage core) = OK \<and>
         (\<exists>sc. data_storage core' =
            (data_storage core)
              \<lparr>sideload_col := sc,
               value_store := fold (\<lambda>e vs. deleteValue E (snd e) vs)
                                (Seek (log_col (data_storage core)) (log_count (output_f C)))
                                (value_store (data_storage core)),
               state_col := (state_col (data_storage core))
                              (log_inserted_key \<mapsto> log_count (output_f C),
                               send_inserted_key \<mapsto> send_count (output_f C))\<rparr>)"
proof -
  let ?tx = "data_storage core"
  let ?b = "case last_sideload (output_f C) of None \<Rightarrow> 0 | Some b \<Rightarrow> b + 1"
  have healthy: "io_status ?tx = OK"
  proof (rule ccontr)
    assume bad: "io_status ?tx \<noteq> OK"
    then have "fst (deleteSideloadsStartingAt core ?tx ?b) \<noteq> OK \<or> io_status ?tx = NotFound"
      by (simp add: deleteSideloadsStartingAt_def Let_def IsNotFound_def)
    moreover have "io_status (snd (snd (deleteSideloadsStartingAt core ?tx ?b))) = io_status ?tx"
      by (simp add: deleteSideloadsStartingAt_def Let_def fold_sideloadDelete_frame)
    ultimately show False
      using assms bad
      by (auto simp: restore_checkpoint_def Let_def ok_def deleteLogsStartingAt_def
          IsNotFound_def updateLogInsertedCount_def statePut_def
          split: if_splits sum.splits)
  qed
  define tx2 where "tx2 = snd (snd (deleteSideloadsStartingAt core ?tx ?b))"
  have tx2: "tx2 = fold (\<lambda>e t. sideloadDelete t (fst e)) (Seek (sideload_col ?tx) ?b) ?tx"
    using healthy
    by (simp add: tx2_def deleteSideloadsStartingAt_def Let_def Valid_entries_def ok_def)
  have fr2: "io_status tx2 = OK" "state_col tx2 = state_col ?tx" "log_col tx2 = log_col ?tx"
    "send_col tx2 = send_col ?tx" "value_store tx2 = value_store ?tx"
    using healthy fold_sideloadDelete_frame [of "Seek (sideload_col ?tx) ?b" ?tx]
    by (simp_all add: tx2)
  obtain sc where rest: "tx2 = ?tx\<lparr>sideload_col := sc\<rparr>"
    unfolding tx2 using fold_sideloadDelete_shape by blast
  define tx3 where "tx3 = tx2\<lparr>value_store := fold (\<lambda>e vs. deleteValue E (snd e) vs)
                                (Seek (log_col ?tx) (log_count (output_f C)))
                                (value_store ?tx)\<rparr>"
  define tx4 where "tx4 = tx3\<lparr>state_col := (state_col tx3)
                                 (log_inserted_key \<mapsto> log_count (output_f C))\<rparr>"
  define tx5 where "tx5 = tx4\<lparr>state_col := (state_col tx4)
                                 (send_inserted_key \<mapsto> send_count (output_f C))\<rparr>"
  have ds: "deleteSideloadsStartingAt core ?tx ?b =
              (OK, core\<lparr>sideload_cache := erase_from_lower_bound ?b (sideload_cache core)\<rparr>,
               tx2)"
    using healthy
    by (simp add: tx2 deleteSideloadsStartingAt_def Let_def Valid_entries_def ok_def
        IsNotFound_def)
  have dl: "deleteLogsStartingAt E tx2 (log_count (output_f C)) = (Some OK, tx3)"
    using fr2
    by (simp add: tx3_def deleteLogsStartingAt_def Let_def Valid_entries_def ok_def
        IsNotFound_def fold_deleteValue)
  have pl: "updateLogInsertedCount tx3 (log_count (output_f C)) = (OK, tx4)"
    using fr2 by (simp add: tx3_def tx4_def updateLogInsertedCount_def statePut_def ok_def)
  have ps: "updateSendInsertedCount tx4 (send_count (output_f C)) = (OK, tx5)"
    using fr2
    by (simp add: tx3_def tx4_def tx5_def updateSendInsertedCount_def statePut_def ok_def)
  have io5: "commit tx5 = OK"
    using fr2 by (simp add: commit_def tx5_def tx4_def tx3_def)
  have "data_storage core' = tx5"
    using assms
    by (auto simp: restore_checkpoint_def Let_def ds dl pl ps io5 ok_def split: sum.splits)
  then have "data_storage core' =
          tx3\<lparr>state_col := (state_col tx3)
                 (log_inserted_key \<mapsto> log_count (output_f C),
                  send_inserted_key \<mapsto> send_count (output_f C))\<rparr>"
    by (simp add: tx5_def tx4_def)
  then have "data_storage core' =
          tx2\<lparr>value_store := fold (\<lambda>e vs. deleteValue E (snd e) vs)
                                (Seek (log_col ?tx) (log_count (output_f C)))
                                (value_store ?tx),
              state_col := (state_col ?tx)
                 (log_inserted_key \<mapsto> log_count (output_f C),
                  send_inserted_key \<mapsto> send_count (output_f C))\<rparr>"
    using fr2 by (simp add: tx3_def)
  then have "data_storage core' =
            ?tx\<lparr>sideload_col := sc,
               value_store := fold (\<lambda>e vs. deleteValue E (snd e) vs)
                                (Seek (log_col ?tx) (log_count (output_f C)))
                                (value_store ?tx),
               state_col := (state_col ?tx)
                              (log_inserted_key \<mapsto> log_count (output_f C),
                               send_inserted_key \<mapsto> send_count (output_f C))\<rparr>"
    by (subst (asm) rest) simp
  then show ?thesis using healthy by blast
qed

lemma reorg_to_checkpoint_success:
  assumes "reorg_to_checkpoint E core C = Inr (OK, core')"
  shows "\<exists>core1. same_but_state (data_storage core1) (data_storage core) \<and>
                 restore_checkpoint E core1 C = Inr (OK, core')"
proof -
  let ?lc = "log_count (output_f C)"
  show ?thesis
  proof (cases "?lc < snd (logInsertedCountImpl (data_storage core))")
    case True
    then obtain hs core1 where
      h: "handle_all_cursors E core [0..<length (logs_cursors core)] ?lc = Inr (hs, core1)"
      and r: "restore_checkpoint E core1 C = Inr (OK, core')"
      using assms
      by (auto simp: reorg_to_checkpoint_def Let_def ok_def split: if_splits sum.splits)
    from handle_all_cursors_same [OF h] r show ?thesis by blast
  next
    case False
    then have "restore_checkpoint E core C = Inr (OK, core')"
      using assms
      by (auto simp: reorg_to_checkpoint_def Let_def ok_def split: if_splits)
    then show ?thesis using same_but_state_refl by blast
  qed
qed

text \<open>
  C4. When \<open>reorgToMessageOrBefore\<close> returns OK and its search over the checkpoints
  stopped at the target \<open>C\<close> (leaving the store \<open>tx1\<close>, in which the checkpoints above
  \<open>C\<close> and their values are deleted), in either build and whatever keys the validity
  checks of the search read: the inserted log count is
  \<open>C.output.log_count\<close> and the inserted send count is \<open>C.output.send_count\<close>; the value
  store is the one of \<open>tx1\<close> after \<open>deleteValue\<close> has been applied, in index order, to
  the hash of every log entry with index at or above \<open>C.output.log_count\<close>; and the send
  column is what it was.
\<close>

theorem reorgToMessageOrBefore_truncates_outputs:
  assumes found: "reorg_checkpoints R E n use_latest (data_storage core)
                    (rev (checkpoint_col (data_storage core))) = Inr (Inr (C, tx1))"
    and success: "reorgToMessageOrBefore R E core n use_latest = Inr (OK, core')"
    and ordered: "ordered_col (log_col (data_storage core))"
  shows "logInsertedCountImpl (data_storage core') = (OK, log_count (output_f C)) \<and>
         sendInsertedCountImpl (data_storage core') = (OK, send_count (output_f C)) \<and>
         value_store (data_storage core') =
           fold (\<lambda>e vs. deleteValue E (snd e) vs)
             (filter (\<lambda>e. log_count (output_f C) \<le> fst e) (log_col (data_storage core)))
             (value_store tx1) \<and>
         send_col (data_storage core') = send_col (data_storage core)"
proof -
  let ?tx = "data_storage core"
  have healthy: "io_status ?tx = OK"
    using success by (auto simp: reorgToMessageOrBefore_def Let_def ok_def split: if_splits)
  have fr1: "io_status tx1 = OK" "state_col tx1 = state_col ?tx" "log_col tx1 = log_col ?tx"
    "send_col tx1 = send_col ?tx"
    using reorg_checkpoints_frame [OF found] healthy by simp_all
  have "reorg_to_checkpoint E (core\<lparr>data_storage := tx1\<rparr>) C = Inr (OK, core')"
    using success found healthy fr1
    by (auto simp: reorgToMessageOrBefore_def Let_def ok_def Valid_entries_def commit_def
        split: if_splits)
  then obtain core1 where
    same: "same_but_state (data_storage core1) tx1"
    and restore: "restore_checkpoint E core1 C = Inr (OK, core')"
    using reorg_to_checkpoint_success by fastforce
  let ?tx2 = "data_storage core1"
  from restore_checkpoint_success [OF restore] obtain sc where
    healthy2: "io_status ?tx2 = OK"
    and final: "data_storage core' =
            ?tx2\<lparr>sideload_col := sc,
               value_store := fold (\<lambda>e vs. deleteValue E (snd e) vs)
                                (Seek (log_col ?tx2) (log_count (output_f C)))
                                (value_store ?tx2),
               state_col := (state_col ?tx2)
                              (log_inserted_key \<mapsto> log_count (output_f C),
                               send_inserted_key \<mapsto> send_count (output_f C))\<rparr>"
    by blast
  have fr2: "log_col ?tx2 = log_col ?tx" "send_col ?tx2 = send_col ?tx"
    "value_store ?tx2 = value_store tx1"
    using same fr1 by (simp_all add: same_but_state_def)
  have keys: "log_inserted_key \<noteq> send_inserted_key"
    by (simp add: log_inserted_key_def send_inserted_key_def)
  have logs: "logInsertedCountImpl (data_storage core') = (OK, log_count (output_f C))"
    using healthy2 keys
    by (simp add: final logInsertedCountImpl_def stateGetUint256_def ok_def)
  have sends: "sendInsertedCountImpl (data_storage core') = (OK, send_count (output_f C))"
    using healthy2
    by (simp add: final sendInsertedCountImpl_def stateGetUint256_def ok_def)
  have vals: "value_store (data_storage core') =
           fold (\<lambda>e vs. deleteValue E (snd e) vs)
             (filter (\<lambda>e. log_count (output_f C) \<le> fst e) (log_col ?tx))
             (value_store tx1)"
    using fr2 Seek_ordered [OF ordered] by (simp add: final)
  have sc: "send_col (data_storage core') = send_col ?tx"
    using fr2 by (simp add: final)
  show ?thesis using logs sends vals sc by simp
qed

lemmas ex_reorg_simps =
  ex_core_def ex_tx_def ex_cursor_def ex_checkpoint_def ex_E_def ex_machine_def
  getTotalMessagesRead_def isValid_def getNextSequencerBatchItem_def Valid_entries_def
  Seek_def ok_def IsNotFound_def deserializeSequencerBatchItem_def checkpointDelete_def
  deleteMachineState_def col_delete_def commit_def Let_def
  logInsertedCountImpl_def sendInsertedCountImpl_def stateGetUint256_def statePut_def
  log_inserted_key_def send_inserted_key_def message_entry_inserted_key_def
  logscursor_current_prefix_def assert_aborts_def ex_R_def ex_heap_bytes_def

lemma ex_found:
  "\<exists>tx1. reorg_checkpoints ex_R ex_E 0 False (data_storage ex_core)
            (rev (checkpoint_col (data_storage ex_core))) =
          Inr (Inr (ex_checkpoint 20 0 0 0 0 0 None, tx1)) \<and>
          checkpoint_col tx1 = [(0, ex_checkpoint 20 0 0 0 0 0 None)] \<and>
          value_store tx1 10 = Some (1, 100) \<and> value_store tx1 11 = Some (1, 101) \<and>
          value_store tx1 12 = Some (2, 102)"
  by (simp add: ex_reorg_simps word_le_nat_alt)

lemma ex_success:
  "\<exists>core'. reorgToMessageOrBefore ex_R ex_E ex_core 0 False = Inr (OK, core')"
  by (simp add: ex_reorg_simps word_le_nat_alt word_less_nat_alt
      reorgToMessageOrBefore_def reorg_to_checkpoint_def restore_checkpoint_def
      handleLogsCursorReorg_def logsCursorGetCurrentTotalCount_def save_deleted_logs_def
      truncate_data_def downgrade_ready_def getLogsNoLock_def logGetUint256Vector_def
      getVectorUsingKey_def narrow_cast_size_t_def deleteSideloadsStartingAt_def
      erase_from_lower_bound_def sideloadDelete_def deleteLogsStartingAt_def
      updateLogInsertedCount_def updateSendInsertedCount_def getMachineUsingStateKeys_def
      cache_sideload_def sideload_cache_size_def)

theorem reorgToMessageOrBefore_truncates_outputs_witness:
  "\<exists>tx1 core'.
     reorg_checkpoints ex_R ex_E 0 False (data_storage ex_core)
       (rev (checkpoint_col (data_storage ex_core))) =
       Inr (Inr (ex_checkpoint 20 0 0 0 0 0 None, tx1)) \<and>
     checkpoint_col tx1 = [(0, ex_checkpoint 20 0 0 0 0 0 None)] \<and>
     reorgToMessageOrBefore ex_R ex_E ex_core 0 False = Inr (OK, core') \<and>
     ordered_col (log_col (data_storage ex_core)) \<and>
     logInsertedCountImpl (data_storage core') = (OK, 0) \<and>
     sendInsertedCountImpl (data_storage core') = (OK, 0) \<and>
     value_store (data_storage core') 10 = None \<and>
     value_store (data_storage core') 11 = None \<and>
     value_store (data_storage core') 12 = Some (1, 102) \<and>
     send_col (data_storage core') = [(0, [1]), (1, [2])]"
proof -
  obtain tx1 where
    found: "reorg_checkpoints ex_R ex_E 0 False (data_storage ex_core)
              (rev (checkpoint_col (data_storage ex_core))) =
            Inr (Inr (ex_checkpoint 20 0 0 0 0 0 None, tx1))"
    and cps: "checkpoint_col tx1 = [(0, ex_checkpoint 20 0 0 0 0 0 None)]"
    and vs: "value_store tx1 10 = Some (1, 100)" "value_store tx1 11 = Some (1, 101)"
      "value_store tx1 12 = Some (2, 102)"
    using ex_found by blast
  obtain core' where
    success: "reorgToMessageOrBefore ex_R ex_E ex_core 0 False = Inr (OK, core')"
    using ex_success by blast
  have ordered: "ordered_col (log_col (data_storage ex_core))"
    by (simp add: ordered_col_def col_keys_def ex_core_def ex_tx_def word_less_nat_alt)
  have lc: "log_count (output_f (ex_checkpoint 20 0 0 0 0 0 None)) = 0"
    "send_count (output_f (ex_checkpoint 20 0 0 0 0 0 None)) = 0"
    by (simp_all add: ex_checkpoint_def)
  have filt: "filter (\<lambda>e. (0 :: uint256_t) \<le> fst e) (log_col (data_storage ex_core)) =
                [(0, 10), (1, 11), (2, 12)]"
    by (simp add: ex_core_def ex_tx_def)
  have sends: "send_col (data_storage ex_core) = [(0, [1]), (1, [2])]"
    by (simp add: ex_core_def ex_tx_def)
  note t = reorgToMessageOrBefore_truncates_outputs [OF found success ordered,
      unfolded lc filt sends]
  have v: "value_store (data_storage core') =
             deleteValue ex_E 12 (deleteValue ex_E 11 (deleteValue ex_E 10 (value_store tx1)))"
    using t by simp
  have v10: "value_store (data_storage core') 10 = None"
    and v11: "value_store (data_storage core') 11 = None"
    and v12: "value_store (data_storage core') 12 = Some (1, 102)"
    using vs by (simp_all add: v ex_E_def)
  show ?thesis
    using found cps success ordered t v10 v11 v12 by blast
qed

end
